theory Spec2Isabelle
  imports Main
begin

unbundle bit_operations_syntax

section \<open>The glTF asset, as the renderer reads it\<close>

text \<open>
  The renderer of \<^verbatim>\<open>src/gltf_renderer.ts\<close> consumes a decoded glTF document.
  JSON numbers that the glTF schema declares as non-negative integers (indices, counts,
  byte offsets, enumeration codes) are natural numbers here. A property that the code
  reads from an object that may lack it is an \<open>option\<close>, with \<open>None\<close> for
  JavaScript's \<^verbatim>\<open>undefined\<close>. The arrays \<^verbatim>\<open>accessors\<close>, \<^verbatim>\<open>bufferViews\<close>,
  \<^verbatim>\<open>meshes\<close> and \<^verbatim>\<open>nodes\<close> are lists: the asset provider supplies them.
  Only \<^verbatim>\<open>skins\<close> is optional, because the code tests it against \<^verbatim>\<open>undefined\<close>.
\<close>

record Accessor =
  acc_bufferView :: "nat option"
  acc_byteOffset :: "nat option"
  acc_componentType :: nat
  acc_normalized :: bool
  acc_count :: nat
  acc_type :: string

record BufferView =
  bv_name :: "string option"
  bv_byteOffset :: "nat option"
  bv_byteLength :: nat
  bv_byteStride :: "nat option"

text \<open>
  \<open>attributes\<close> lists the entries of the primitive's attribute object in the order of
  \<^verbatim>\<open>Object.entries\<close> (which is also the order of \<^verbatim>\<open>Object.values\<close>).
\<close>

record MeshPrimitive =
  attributes :: "(string \<times> nat) list"
  indices :: "nat option"
  mode :: "nat option"

record Mesh =
  primitives :: "MeshPrimitive list"

record Node =
  node_mesh :: "nat option"

record Skin =
  joints :: "nat list"
  inverseBindMatrices :: "nat option"

record GlTf =
  accessors :: "Accessor list"
  bufferViews :: "BufferView list"
  meshes :: "Mesh list"
  nodes :: "Node list"
  skins :: "Skin list option"

text \<open>Reading index \<open>i\<close> of a JavaScript array: \<^verbatim>\<open>undefined\<close> out of range.\<close>

definition js_index :: "'a list \<Rightarrow> nat \<Rightarrow> 'a option" where
  "js_index xs i = (if i < length xs then Some (xs ! i) else None)"

section \<open>GLTFUtil: the format mapper\<close>

definition GL_BYTE :: nat where "GL_BYTE = 5120"
definition GL_UNSIGNED_BYTE :: nat where "GL_UNSIGNED_BYTE = 5121"
definition GL_SHORT :: nat where "GL_SHORT = 5122"
definition GL_UNSIGNED_SHORT :: nat where "GL_UNSIGNED_SHORT = 5123"
definition GL_UNSIGNED_INT :: nat where "GL_UNSIGNED_INT = 5125"
definition GL_FLOAT :: nat where "GL_FLOAT = 5126"

definition GL_POINTS :: nat where "GL_POINTS = 0"
definition GL_LINES :: nat where "GL_LINES = 1"
definition GL_LINES_LOOP :: nat where "GL_LINES_LOOP = 2"
definition GL_LINE_STRIP :: nat where "GL_LINE_STRIP = 3"
definition GL_TRIANGLES :: nat where "GL_TRIANGLES = 4"
definition GL_TRIANGLE_STRIP :: nat where "GL_TRIANGLE_STRIP = 5"
definition GL_TRIANGLE_FAN :: nat where "GL_TRIANGLE_FAN = 6"

lemmas GL_defs =
  GL_BYTE_def GL_UNSIGNED_BYTE_def GL_SHORT_def GL_UNSIGNED_SHORT_def GL_UNSIGNED_INT_def
  GL_FLOAT_def GL_POINTS_def GL_LINES_def GL_LINES_LOOP_def GL_LINE_STRIP_def
  GL_TRIANGLES_def GL_TRIANGLE_STRIP_def GL_TRIANGLE_FAN_def

definition componentCountForType :: "string \<Rightarrow> nat" where
  "componentCountForType t =
     (if t = ''SCALAR'' then 1
      else if t = ''VEC2'' then 2
      else if t = ''VEC3'' then 3
      else if t = ''VEC4'' then 4
      else 0)"

definition sizeForComponentType :: "nat \<Rightarrow> nat" where
  "sizeForComponentType componentType =
     (if componentType = GL_BYTE then 1
      else if componentType = GL_UNSIGNED_BYTE then 1
      else if componentType = GL_SHORT then 2
      else if componentType = GL_UNSIGNED_SHORT then 2
      else if componentType = GL_UNSIGNED_INT then 4
      else if componentType = GL_FLOAT then 4
      else 0)"

definition packedArrayStrideForAccessor :: "Accessor \<Rightarrow> nat" where
  "packedArrayStrideForAccessor accessor =
     sizeForComponentType (acc_componentType accessor) * componentCountForType (acc_type accessor)"

text \<open>
  The decimal text that a template literal gives a non-negative integer
  (\<^verbatim>\<open>`x${count}`\<close>).
\<close>

fun numberToString :: "nat \<Rightarrow> string" where
  "numberToString n =
     (if n < 10 then [''0123456789'' ! n]
      else numberToString (n div 10) @ [''0123456789'' ! (n mod 10)])"

declare numberToString.simps [simp del]

text \<open>
  The switch of \<^verbatim>\<open>gpuFormatForAccessor\<close> has no default branch: for any other
  component type the function returns \<^verbatim>\<open>undefined\<close>.
\<close>

definition gpuFormatForAccessor :: "Accessor \<Rightarrow> string option" where
  "gpuFormatForAccessor accessor =
     (let norm = (if acc_normalized accessor then ''norm'' else ''int'');
          count = componentCountForType (acc_type accessor);
          x = (if count > 1 then ''x'' @ numberToString count else '''');
          componentType = acc_componentType accessor
      in if componentType = GL_BYTE then Some (''s'' @ norm @ ''8'' @ x)
         else if componentType = GL_UNSIGNED_BYTE then Some (''u'' @ norm @ ''8'' @ x)
         else if componentType = GL_SHORT then Some (''s'' @ norm @ ''16'' @ x)
         else if componentType = GL_UNSIGNED_SHORT then Some (''u'' @ norm @ ''16'' @ x)
         else if componentType = GL_UNSIGNED_INT then Some (''u'' @ norm @ ''32'' @ x)
         else if componentType = GL_FLOAT then Some (''float32'' @ x)
         else None)"

text \<open>
  \<^verbatim>\<open>primitive.mode\<close> is optional in a glTF document, so the argument may be
  \<^verbatim>\<open>undefined\<close>. The switch names five of the seven modes and has no default branch.
\<close>

definition gpuPrimitiveTopologyForMode :: "nat option \<Rightarrow> string option" where
  "gpuPrimitiveTopologyForMode m =
     (if m = Some GL_TRIANGLES then Some ''triangle-list''
      else if m = Some GL_TRIANGLE_STRIP then Some ''triangle-strip''
      else if m = Some GL_LINES then Some ''line-list''
      else if m = Some GL_LINE_STRIP then Some ''line-strip''
      else if m = Some GL_POINTS then Some ''point-list''
      else None)"

definition gpuIndexFormatForComponentType :: "nat \<Rightarrow> string" where
  "gpuIndexFormatForComponentType componentType =
     (if componentType = GL_UNSIGNED_SHORT then ''uint16''
      else if componentType = GL_UNSIGNED_INT then ''uint32''
      else ''uint32'')"

section \<open>The GPU device and the renderer's state\<close>

text \<open>
  The GPU device is an external collaborator. The model keeps a log of what the renderer
  asks of it: every buffer, bind group and render pipeline it creates, in creation order,
  and every \<^verbatim>\<open>queue.writeBuffer\<close> call. A handle to a GPU object is its position in
  the log of its kind. Layout objects and shader modules are built from constants alone
  and are left out of the log. Device calls themselves do not fail in the model: the
  errors modelled are those that the renderer's own JavaScript raises.
\<close>

type_synonym handle = nat

datatype js_error =
    TypeError string
  | RangeError string
  | Rejected string

definition BYTES_PER_ELEMENT :: nat where "BYTES_PER_ELEMENT = 4"

text \<open>The flags of \<^verbatim>\<open>GPUBufferUsage\<close> that the renderer uses (WebGPU API constants).\<close>

definition COPY_DST :: nat where "COPY_DST = 8"
definition INDEX :: nat where "INDEX = 16"
definition VERTEX :: nat where "VERTEX = 32"
definition UNIFORM :: nat where "UNIFORM = 64"
definition STORAGE :: nat where "STORAGE = 128"

lemmas usage_defs = COPY_DST_def INDEX_def VERTEX_def UNIFORM_def STORAGE_def

text \<open>
  \<open>buf_mappedData\<close> holds the bytes that the renderer has written through the mapped
  range of a buffer created with \<^verbatim>\<open>mappedAtCreation\<close>; it is empty for other buffers.
\<close>

record GPUBufferDescriptor =
  buf_label :: "string option"
  buf_size :: nat
  buf_usage :: nat
  buf_mappedAtCreation :: bool
  buf_mappedData :: "nat list"

text \<open>
  Matrices, vectors and the time value are single-precision data that the renderer copies
  and never computes with; they are kept opaque, each identified by a tag.
\<close>

datatype mat4 = Mat4 nat
datatype vec3 = Vec3 nat
datatype seconds = Seconds nat

text \<open>
  What a \<^verbatim>\<open>writeBuffer\<close> call carries: a sequence of small non-negative integers stored
  as floats, a sequence of 16-float blocks (\<open>None\<close> is a block of the fresh, zero-filled
  array buffer that was never set), or one camera state.
\<close>

datatype payload =
    Numbers "nat list"
  | Matrices "mat4 option list"
  | CameraState mat4 mat4 vec3 seconds

record GPUWrite =
  wr_buffer :: "handle option"
  wr_offset :: nat
  wr_data :: payload

datatype shader_location = Location nat | Inherited string

record GPUVertexAttribute =
  va_format :: "string option"
  va_offset :: nat
  va_shaderLocation :: shader_location

record GPUVertexBufferLayout =
  arrayStride :: nat
  vb_attributes :: "GPUVertexAttribute list"

text \<open>
  Of the pipeline descriptor, the vertex buffer layouts and the topology vary with the
  primitive; every other member is a constant of the source.
\<close>

record GPURenderPipelineDescriptor =
  vertex_buffers :: "GPUVertexBufferLayout list"
  topology :: "string option"

record GPUPrimitiveBufferInfo =
  buffer :: "handle option"
  offset :: "nat option"

record GPUPrimitiveInfo =
  pipeline :: handle
  buffers :: "GPUPrimitiveBufferInfo list"
  drawCount :: nat
  indexBuffer :: "handle option"
  indexOffset :: "nat option"
  indexType :: "string option"

text \<open>
  The scene that the renderer is given. The class \<^verbatim>\<open>GLTFGroup\<close> is declared in
  another file of the repository; the renderer receives an instance and reads these
  members of it. A node is identified by its index in \<^verbatim>\<open>gltf.nodes\<close>, so
  \<open>nodeMatrics\<close> is keyed by node index. \<open>bufferData0\<close> is the outcome of
  \<^verbatim>\<open>asset.bufferData.get(0)\<close>: the bytes of the binary payload, or \<open>None\<close> when the
  promise is rejected.
\<close>

record GLTFGroup =
  gltf :: GlTf
  instanceCount :: nat
  transforms :: "mat4 list"
  nodeMatrics :: "nat \<Rightarrow> mat4 option"
  bufferData0 :: "nat list option"

text \<open>
  The fields of \<^verbatim>\<open>GltfRenderer\<close> together with the device log. A primitive is
  identified by the index of its mesh and its index within the mesh.
\<close>

record GltfRenderer =
  dev_buffers :: "GPUBufferDescriptor list"
  dev_writes :: "GPUWrite list"
  dev_bindGroups :: "handle option list list"
  dev_pipelines :: "GPURenderPipelineDescriptor list"
  primitiveGpuData :: "nat \<times> nat \<rightharpoonup> GPUPrimitiveInfo"
  gpuBuffers :: "handle list"
  cameraBuffer :: "handle option"
  instanceBuffer :: "handle option"
  jointTransformBuffer :: "handle option"
  frameBindGroup :: "handle option"
  nodeGpuData :: "(nat \<times> handle) list"
  jointInfoBuffer :: "handle option"
  inverseBindMatrixBuffer :: "handle option"
  constantBindGroup :: "handle option"
  isFirstRenderer :: bool
  canvas_width :: nat
  canvas_height :: nat

definition createBuffer :: "GPUBufferDescriptor \<Rightarrow> GltfRenderer \<Rightarrow> handle \<times> GltfRenderer" where
  "createBuffer desc st = (length (dev_buffers st), st\<lparr>dev_buffers := dev_buffers st @ [desc]\<rparr>)"

definition createBindGroup :: "handle option list \<Rightarrow> GltfRenderer \<Rightarrow> handle \<times> GltfRenderer" where
  "createBindGroup entries st =
     (length (dev_bindGroups st), st\<lparr>dev_bindGroups := dev_bindGroups st @ [entries]\<rparr>)"

definition createRenderPipeline ::
  "GPURenderPipelineDescriptor \<Rightarrow> GltfRenderer \<Rightarrow> handle \<times> GltfRenderer" where
  "createRenderPipeline desc st =
     (length (dev_pipelines st), st\<lparr>dev_pipelines := dev_pipelines st @ [desc]\<rparr>)"

definition writeBuffer :: "handle option \<Rightarrow> nat \<Rightarrow> payload \<Rightarrow> GltfRenderer \<Rightarrow> GltfRenderer" where
  "writeBuffer b off d st =
     st\<lparr>dev_writes := dev_writes st @ [\<lparr>wr_buffer = b, wr_offset = off, wr_data = d\<rparr>]\<rparr>"

text \<open>
  A \<^verbatim>\<open>for ... of\<close> loop whose body may throw: the loop stops at the first exception.
\<close>

fun forEach :: "('a \<Rightarrow> 's \<Rightarrow> js_error + 's) \<Rightarrow> 'a list \<Rightarrow> 's \<Rightarrow> js_error + 's" where
  "forEach body [] s = Inr s"
| "forEach body (x # xs) s =
     (case body x s of Inl e \<Rightarrow> Inl e | Inr s' \<Rightarrow> forEach body xs s')"

section \<open>loadGPUBuffers: the resource uploader\<close>

text \<open>
  \<^verbatim>\<open>bufferViewUsages\<close> is written twice in the source, as a \<^verbatim>\<open>Map\<close> entry and as a
  property of the same object, always with the same key and value; \<^verbatim>\<open>has(i)\<close> reads
  the first and \<^verbatim>\<open>bufferViewUsages[i]\<close> the second. One map models both. An accessor
  without a buffer view tags the key \<^verbatim>\<open>undefined\<close>, which no buffer-view index reads.
\<close>

type_synonym usages = "nat \<rightharpoonup> nat"

definition markUsage :: "Accessor \<Rightarrow> nat \<Rightarrow> usages \<Rightarrow> usages" where
  "markUsage accessor u bufferViewUsages =
     (case acc_bufferView accessor of
        None \<Rightarrow> bufferViewUsages
      | Some b \<Rightarrow> bufferViewUsages(b \<mapsto> u))"

text \<open>
  \<^verbatim>\<open>accessors[k].bufferView\<close>: a \<^verbatim>\<open>TypeError\<close> when the accessor array has no index
  \<open>k\<close>.
\<close>

definition markAccessor :: "Accessor list \<Rightarrow> nat \<Rightarrow> nat \<Rightarrow> usages \<Rightarrow> js_error + usages" where
  "markAccessor accs u k bufferViewUsages =
     (case js_index accs k of
        None \<Rightarrow> Inl (TypeError ''accessor'')
      | Some accessor \<Rightarrow> Inr (markUsage accessor u bufferViewUsages))"

text \<open>
  The first loop nest of \<^verbatim>\<open>loadGPUBuffers\<close>: for each primitive of each mesh, tag the
  buffer view of the index accessor (when the primitive has indices) as index data, then
  the buffer view of each attribute accessor as vertex data. A later tag replaces an
  earlier one.
\<close>

definition markPrimitive :: "Accessor list \<Rightarrow> MeshPrimitive \<Rightarrow> usages \<Rightarrow> js_error + usages" where
  "markPrimitive accs primitive bufferViewUsages =
     (case (case indices primitive of
              None \<Rightarrow> Inr bufferViewUsages
            | Some k \<Rightarrow> markAccessor accs INDEX k bufferViewUsages) of
        Inl e \<Rightarrow> Inl e
      | Inr marked \<Rightarrow> forEach (markAccessor accs VERTEX) (map snd (attributes primitive)) marked)"

definition markMeshes :: "GlTf \<Rightarrow> usages \<Rightarrow> js_error + usages" where
  "markMeshes g bufferViewUsages =
     forEach (\<lambda>mesh. forEach (markPrimitive (accessors g)) (primitives mesh)) (meshes g)
       bufferViewUsages"

text \<open>
  \<^verbatim>\<open>skins[0]\<close> and the members read from it. Reading index 0 of an absent skin list is
  the \<^verbatim>\<open>TypeError\<close> tagged \<open>gltf.skins\<close>; no other read has this tag.
\<close>

definition skin0 :: "GlTf \<Rightarrow> js_error + Skin" where
  "skin0 g =
     (case skins g of
        None \<Rightarrow> Inl (TypeError ''gltf.skins'')
      | Some [] \<Rightarrow> Inl (TypeError ''gltf.skins[0]'')
      | Some (skin # _) \<Rightarrow> Inr skin)"

text \<open>
  \<^verbatim>\<open>accessors[skins[0].inverseBindMatrices].bufferView\<close>, as both \<^verbatim>\<open>loadGPUBuffers\<close>
  and \<^verbatim>\<open>initConstantBindGroup\<close> evaluate it.
\<close>

definition inverseBindAccessor :: "GlTf \<Rightarrow> js_error + Accessor" where
  "inverseBindAccessor g =
     (case skin0 g of
        Inl e \<Rightarrow> Inl e
      | Inr skin \<Rightarrow>
          (case inverseBindMatrices skin of
             None \<Rightarrow> Inl (TypeError ''accessor'')
           | Some k \<Rightarrow>
               (case js_index (accessors g) k of
                  None \<Rightarrow> Inl (TypeError ''accessor'')
                | Some accessor \<Rightarrow> Inr accessor)))"

text \<open>
  The part of \<^verbatim>\<open>loadGPUBuffers\<close> under \<^verbatim>\<open>hasJoint\<close>: tag the buffer view of the
  first skin's inverse bind matrices as storage.
\<close>

definition markSkin :: "GlTf \<Rightarrow> usages \<Rightarrow> js_error + usages" where
  "markSkin g bufferViewUsages =
     (let hasJoint = (skins g \<noteq> None)
      in if hasJoint
         then (case inverseBindAccessor g of
                 Inl e \<Rightarrow> Inl e
               | Inr accessor \<Rightarrow> Inr (markUsage accessor (STORAGE OR COPY_DST) bufferViewUsages))
         else Inr bufferViewUsages)"

definition roundUp4 :: "nat \<Rightarrow> nat" where
  "roundUp4 n = ((n + 3) div 4) * 4"

text \<open>
  \<^verbatim>\<open>wholeArray.subarray(byteOffset, byteOffset + byteLength)\<close>: both ends are clamped to
  the array; with \<^verbatim>\<open>byteOffset\<close> undefined the end is \<^verbatim>\<open>NaN\<close> and the view is empty.
\<close>

definition subarray :: "nat list \<Rightarrow> BufferView \<Rightarrow> nat list" where
  "subarray wholeArray bufferView =
     (case bv_byteOffset bufferView of
        None \<Rightarrow> []
      | Some off \<Rightarrow> take (bv_byteLength bufferView) (drop off wholeArray))"

definition dataBuffer :: "BufferView \<Rightarrow> nat \<Rightarrow> nat list \<Rightarrow> GPUBufferDescriptor" where
  "dataBuffer bufferView usage wholeArray =
     (let size = roundUp4 (bv_byteLength bufferView);
          subArray = subarray wholeArray bufferView
      in \<lparr>buf_label = bv_name bufferView, buf_size = size, buf_usage = usage,
          buf_mappedAtCreation = True,
          buf_mappedData = subArray @ replicate (size - length subArray) 0\<rparr>)"

definition emptyBuffer :: GPUBufferDescriptor where
  "emptyBuffer =
     \<lparr>buf_label = Some ''empty buffer'', buf_size = 4, buf_usage = COPY_DST,
      buf_mappedAtCreation = False, buf_mappedData = []\<rparr>"

text \<open>
  One round of the loop over the buffer-view indices. In the source the data buffer is
  created before the payload is awaited; a rejected payload ends \<^verbatim>\<open>loadGPUBuffers\<close>
  with that rejection.
\<close>

definition uploadBufferView :: "GLTFGroup \<Rightarrow> usages \<Rightarrow> nat \<Rightarrow> GltfRenderer \<Rightarrow> js_error + GltfRenderer" where
  "uploadBufferView grp bufferViewUsages i st =
     (case bufferViewUsages i of
        Some usage \<Rightarrow>
          (case js_index (bufferViews (gltf grp)) i of
             None \<Rightarrow> Inl (TypeError ''bufferView'')
           | Some bufferView \<Rightarrow>
               (case bufferData0 grp of
                  None \<Rightarrow> Inl (Rejected ''bufferData'')
                | Some wholeArray \<Rightarrow>
                    (let (gpuBuffer, st1) = createBuffer (dataBuffer bufferView usage wholeArray) st
                     in Inr (st1\<lparr>gpuBuffers := gpuBuffers st1 @ [gpuBuffer]\<rparr>))))
      | None \<Rightarrow>
          (let (gpuBuffer, st1) = createBuffer emptyBuffer st
           in Inr (st1\<lparr>gpuBuffers := gpuBuffers st1 @ [gpuBuffer]\<rparr>)))"

definition loadGPUBuffers :: "GLTFGroup \<Rightarrow> GltfRenderer \<Rightarrow> js_error + GltfRenderer" where
  "loadGPUBuffers grp st =
     (case markMeshes (gltf grp) Map.empty of
        Inl e \<Rightarrow> Inl e
      | Inr marked \<Rightarrow>
          (case markSkin (gltf grp) marked of
             Inl e \<Rightarrow> Inl e
           | Inr bufferViewUsages \<Rightarrow>
               forEach (uploadBufferView grp bufferViewUsages)
                 [0 ..< length (bufferViews (gltf grp))]
                 (st\<lparr>gpuBuffers := []\<rparr>)))"

section \<open>The bind group builder\<close>

definition FRAMEBUFFERSIZE :: nat where
  "FRAMEBUFFERSIZE = BYTES_PER_ELEMENT * 36"

definition plainBuffer :: "nat \<Rightarrow> nat \<Rightarrow> GPUBufferDescriptor" where
  "plainBuffer byteSize usage =
     \<lparr>buf_label = None, buf_size = byteSize, buf_usage = usage, buf_mappedAtCreation = False,
      buf_mappedData = []\<rparr>"

text \<open>
  One round of the loops that fill an array buffer with matrices:
  \<^verbatim>\<open>new Float32Array(buffer, index * 64, 16)\<close> raises a \<^verbatim>\<open>RangeError\<close> when the block
  lies outside the buffer, and \<^verbatim>\<open>arr.set(mat)\<close> a \<^verbatim>\<open>TypeError\<close> when \<^verbatim>\<open>mat\<close> is
  undefined.
\<close>

definition setBlock :: "nat \<times> mat4 option \<Rightarrow> mat4 option list \<Rightarrow> js_error + mat4 option list" where
  "setBlock entry blocks =
     (let (index, mat) = entry
      in if index < length blocks
         then (case mat of
                 None \<Rightarrow> Inl (TypeError ''mat'')
               | Some m \<Rightarrow> Inr (blocks[index := Some m]))
         else Inl (RangeError ''Float32Array''))"

definition updateInstanceBuffer :: "GLTFGroup \<Rightarrow> GltfRenderer \<Rightarrow> js_error + GltfRenderer" where
  "updateInstanceBuffer grp st =
     (case forEach setBlock (enumerate 0 (map Some (transforms grp)))
             (replicate (instanceCount grp) None) of
        Inl e \<Rightarrow> Inl e
      | Inr instanceArrayBuffer \<Rightarrow>
          Inr (writeBuffer (instanceBuffer st) 0 (Matrices instanceArrayBuffer) st))"

definition updateCameraBuffer ::
  "mat4 \<Rightarrow> mat4 \<Rightarrow> vec3 \<Rightarrow> seconds \<Rightarrow> GltfRenderer \<Rightarrow> GltfRenderer" where
  "updateCameraBuffer projMat viewMat pos time st =
     writeBuffer (cameraBuffer st) 0 (CameraState projMat viewMat pos time) st"

text \<open>
  The number of bytes that a \<^verbatim>\<open>writeBuffer\<close> call copies: the byte length of the array
  buffer handed to it. \<^verbatim>\<open>updateCameraBuffer\<close> allocates \<^verbatim>\<open>FRAMEBUFFERSIZE\<close> bytes
  and views them as 16, 16, 3 and 1 floats at float offsets 0, 16, 32 and 35.
\<close>

fun byteLength :: "payload \<Rightarrow> nat" where
  "byteLength (Numbers ns) = length ns * BYTES_PER_ELEMENT"
| "byteLength (Matrices ms) = 16 * length ms * BYTES_PER_ELEMENT"
| "byteLength (CameraState projMat viewMat pos time) = FRAMEBUFFERSIZE"

text \<open>
  \<^verbatim>\<open>nodeMatrics.get(gltf.nodes[joint])\<close>: undefined when the node list has no such index.
\<close>

definition jointMatrix :: "GLTFGroup \<Rightarrow> nat \<Rightarrow> mat4 option" where
  "jointMatrix grp joint =
     (case js_index (nodes (gltf grp)) joint of
        None \<Rightarrow> None
      | Some node \<Rightarrow> nodeMatrics grp joint)"

text \<open>
  The part of \<^verbatim>\<open>initFrameBindGroup\<close> under the comment \<^verbatim>\<open>Joint Transforms\<close>: with a
  skin list, a buffer of 16 floats per joint and instance, primed for each instance with
  the node matrices of the joints; without one, a buffer of four floats.
\<close>

definition initJointTransformBuffer ::
  "GLTFGroup \<Rightarrow> nat \<Rightarrow> GltfRenderer \<Rightarrow> js_error + GltfRenderer" where
  "initJointTransformBuffer grp instanceNum st =
     (let hasJoint = (skins (gltf grp) \<noteq> None)
      in if hasJoint
         then
           (case skin0 (gltf grp) of
              Inl e \<Rightarrow> Inl e
            | Inr skin \<Rightarrow>
                (let jointNum = length (joints skin);
                     (b, st1) = createBuffer
                        (plainBuffer (16 * jointNum * instanceNum * BYTES_PER_ELEMENT)
                           (STORAGE OR COPY_DST)) st;
                     st2 = st1\<lparr>jointTransformBuffer := Some b\<rparr>
                 in case forEach setBlock
                           (enumerate 0 (map (jointMatrix grp) (joints skin)))
                           (replicate jointNum None) of
                      Inl e \<Rightarrow> Inl e
                    | Inr jointTransformArrayBuffer \<Rightarrow>
                        Inr (fold (\<lambda>i. writeBuffer (jointTransformBuffer st2)
                                         (i * 16 * jointNum * BYTES_PER_ELEMENT)
                                         (Matrices jointTransformArrayBuffer))
                               [0 ..< instanceNum] st2)))
         else
           (let (b, st1) = createBuffer
                  (plainBuffer (4 * BYTES_PER_ELEMENT) (STORAGE OR COPY_DST)) st
            in Inr (st1\<lparr>jointTransformBuffer := Some b\<rparr>)))"

definition initFrameBindGroup :: "GLTFGroup \<Rightarrow> GltfRenderer \<Rightarrow> js_error + GltfRenderer" where
  "initFrameBindGroup grp st =
     (let (cam, st1) = createBuffer
            (plainBuffer (FRAMEBUFFERSIZE * BYTES_PER_ELEMENT) (UNIFORM OR COPY_DST)) st;
          st2 = st1\<lparr>cameraBuffer := Some cam\<rparr>;
          instanceNum = instanceCount grp;
          (inst, st3) = createBuffer
            (plainBuffer (16 * instanceNum * BYTES_PER_ELEMENT) (STORAGE OR COPY_DST)) st2;
          st4 = st3\<lparr>instanceBuffer := Some inst\<rparr>
      in case updateInstanceBuffer grp st4 of
           Inl e \<Rightarrow> Inl e
         | Inr st5 \<Rightarrow>
             (case initJointTransformBuffer grp instanceNum st5 of
                Inl e \<Rightarrow> Inl e
              | Inr st6 \<Rightarrow>
                  (let (bg, st7) = createBindGroup
                         [cameraBuffer st6, instanceBuffer st6, jointTransformBuffer st6] st6
                   in Inr (st7\<lparr>frameBindGroup := Some bg\<rparr>))))"

text \<open>\<^verbatim>\<open>this.gpuBuffers[bufferView]\<close>: undefined for an absent or out-of-range index.\<close>

definition gpuBufferAt :: "handle list \<Rightarrow> nat option \<Rightarrow> handle option" where
  "gpuBufferAt bufs bufferView =
     (case bufferView of None \<Rightarrow> None | Some b \<Rightarrow> js_index bufs b)"

text \<open>
  The joint metadata is stored through a \<^verbatim>\<open>Float32Array\<close>; a joint count below
  \<open>2^24\<close> is stored exactly.
\<close>

definition initConstantBindGroup :: "GLTFGroup \<Rightarrow> GltfRenderer \<Rightarrow> js_error + GltfRenderer" where
  "initConstantBindGroup grp st =
     (let hasJoint = (if skins (gltf grp) \<noteq> None then 1 else 0 :: nat)
      in case (if hasJoint \<noteq> 0
               then (case skin0 (gltf grp) of
                       Inl e \<Rightarrow> Inl e
                     | Inr skin \<Rightarrow> Inr (length (joints skin)))
               else Inr 0) of
           Inl e \<Rightarrow> Inl e
         | Inr jointNum \<Rightarrow>
             (let (info, st1) = createBuffer
                    (plainBuffer (4 * BYTES_PER_ELEMENT) (UNIFORM OR COPY_DST)) st;
                  st2 = st1\<lparr>jointInfoBuffer := Some info\<rparr>;
                  st3 = writeBuffer (jointInfoBuffer st2) 0
                          (Numbers [hasJoint, jointNum, 0, 0]) st2
              in case (if hasJoint \<noteq> 0
                       then (case inverseBindAccessor (gltf grp) of
                               Inl e \<Rightarrow> Inl e
                             | Inr accessor \<Rightarrow>
                                 Inr (st3\<lparr>inverseBindMatrixBuffer :=
                                        gpuBufferAt (gpuBuffers st3) (acc_bufferView accessor)\<rparr>))
                       else (let (b, st4) = createBuffer
                                   (plainBuffer (4 * BYTES_PER_ELEMENT) (STORAGE OR COPY_DST)) st3
                             in Inr (st4\<lparr>inverseBindMatrixBuffer := Some b\<rparr>))) of
                   Inl e \<Rightarrow> Inl e
                 | Inr st5 \<Rightarrow>
                     (let (bg, st6) = createBindGroup
                            [jointInfoBuffer st5, inverseBindMatrixBuffer st5] st5
                      in Inr (st6\<lparr>constantBindGroup := Some bg\<rparr>))))"

text \<open>\<^verbatim>\<open>Map.prototype.set\<close>: a present key keeps its place, a new key goes last.\<close>

fun mapSet :: "'k \<Rightarrow> 'v \<Rightarrow> ('k \<times> 'v) list \<Rightarrow> ('k \<times> 'v) list" where
  "mapSet k v [] = [(k, v)]"
| "mapSet k v ((k', v') # rest) =
     (if k' = k then (k, v) # rest else (k', v') # mapSet k v rest)"

text \<open>
  \<^verbatim>\<open>new Float32Array(undefined)\<close> is an empty array, so a node without a resolved
  matrix writes nothing.
\<close>

definition setupMeshNodeBindGroup :: "GLTFGroup \<Rightarrow> nat \<Rightarrow> GltfRenderer \<Rightarrow> GltfRenderer" where
  "setupMeshNodeBindGroup grp node st =
     (let (nodeUniformBuffer, st1) = createBuffer
            (plainBuffer (16 * BYTES_PER_ELEMENT) (UNIFORM OR COPY_DST)) st;
          bufferData = (case nodeMatrics grp node of
                          None \<Rightarrow> Matrices []
                        | Some m \<Rightarrow> Matrices [Some m]);
          st2 = writeBuffer (Some nodeUniformBuffer) 0 bufferData st1;
          (bindGroup, st3) = createBindGroup [Some nodeUniformBuffer] st2
      in st3\<lparr>nodeGpuData := mapSet node bindGroup (nodeGpuData st3)\<rparr>)"

text \<open>
  \<^verbatim>\<open>'mesh' in node\<close> selects the mesh-bearing nodes; each gets a uniform buffer and a bind
  group of its own.
\<close>

definition initNodeBindGroup :: "GLTFGroup \<Rightarrow> GltfRenderer \<Rightarrow> GltfRenderer" where
  "initNodeBindGroup grp st =
     fold (\<lambda>(i, node). if node_mesh node \<noteq> None then setupMeshNodeBindGroup grp i else id)
       (enumerate 0 (nodes (gltf grp))) st"

section \<open>setupPrimitive: the pipeline builder\<close>

text \<open>The entries of the \<^verbatim>\<open>ShaderLocations\<close> map, in insertion order.\<close>

definition ShaderLocations :: "(string \<times> nat) list" where
  "ShaderLocations =
     [(''POSITION'', 0), (''NORMAL'', 1), (''JOINTS_0'', 2), (''WEIGHTS_0'', 3)]"

text \<open>
  The second loop of \<^verbatim>\<open>setupPrimitive\<close> reads \<^verbatim>\<open>ShaderLocations[attribName]\<close>: a
  property of the \<^verbatim>\<open>Map\<close> object, not an entry of the map. The object has no
  properties of its own, so the read is \<^verbatim>\<open>undefined\<close> for every name but those that a
  \<^verbatim>\<open>Map\<close> instance inherits from \<^verbatim>\<open>Map.prototype\<close> and \<^verbatim>\<open>Object.prototype\<close>
  (ECMAScript standard library, with the legacy accessors of its annex B that browsers
  provide). \<^verbatim>\<open>size\<close> is the number of entries, 4; every other inherited member is a
  function or a prototype object.
\<close>

definition Map_inherited :: "string list" where
  "Map_inherited =
     [''clear'', ''constructor'', ''delete'', ''entries'', ''forEach'', ''get'', ''has'',
      ''keys'', ''set'', ''values'', ''hasOwnProperty'', ''isPrototypeOf'',
      ''propertyIsEnumerable'', ''toLocaleString'', ''toString'', ''valueOf'',
      ''__proto__'', ''__defineGetter__'', ''__defineSetter__'', ''__lookupGetter__'',
      ''__lookupSetter__'']"

definition ShaderLocations_property :: "string \<Rightarrow> shader_location option" where
  "ShaderLocations_property attribName =
     (if attribName = ''size'' then Some (Location (length ShaderLocations))
      else if attribName \<in> set Map_inherited then Some (Inherited attribName)
      else None)"

text \<open>
  The inner loop of the first pass: the first entry of the primitive's attributes whose
  name is the shader's attribute name.
\<close>

fun findAttribute :: "string \<Rightarrow> (string \<times> nat) list \<Rightarrow> nat option" where
  "findAttribute atrrNameInShader [] = None"
| "findAttribute atrrNameInShader ((attribName, accessorIndex) # rest) =
     (if attribName \<noteq> atrrNameInShader then findAttribute atrrNameInShader rest
      else Some accessorIndex)"

text \<open>
  The three locals that both passes extend: \<^verbatim>\<open>bufferLayout\<close>,
  \<^verbatim>\<open>primitiveGpuBuffers\<close> and \<^verbatim>\<open>drawCount\<close>.
\<close>

type_synonym vertex_state =
  "GPUVertexBufferLayout list \<times> GPUPrimitiveBufferInfo list \<times> nat"

definition bufferViewOf :: "GlTf \<Rightarrow> Accessor \<Rightarrow> BufferView option" where
  "bufferViewOf g accessor =
     (case acc_bufferView accessor of
        None \<Rightarrow> None
      | Some b \<Rightarrow> js_index (bufferViews g) b)"

text \<open>
  The body shared by the two passes: one layout entry, one buffer entry, and the draw
  count of this accessor. \<^verbatim>\<open>bufferView.byteStride || packed\<close> takes the packed stride
  when the stride is undefined or zero.
\<close>

definition pushAttribute ::
  "GlTf \<Rightarrow> handle list \<Rightarrow> shader_location \<Rightarrow> Accessor \<Rightarrow> vertex_state \<Rightarrow> js_error + vertex_state" where
  "pushAttribute g gpuBufs location accessor vs =
     (let (bufferLayout, primitiveGpuBuffers, drawCount') = vs
      in case bufferViewOf g accessor of
           None \<Rightarrow> Inl (TypeError ''bufferView'')
         | Some bufferView \<Rightarrow>
             Inr (bufferLayout @
                    [\<lparr>arrayStride =
                        (case bv_byteStride bufferView of
                           None \<Rightarrow> packedArrayStrideForAccessor accessor
                         | Some stride \<Rightarrow>
                             if stride = 0 then packedArrayStrideForAccessor accessor
                             else stride),
                      vb_attributes =
                        [\<lparr>va_format = gpuFormatForAccessor accessor, va_offset = 0,
                          va_shaderLocation = location\<rparr>]\<rparr>],
                  primitiveGpuBuffers @
                    [\<lparr>buffer = gpuBufferAt gpuBufs (acc_bufferView accessor),
                      offset = acc_byteOffset accessor\<rparr>],
                  acc_count accessor))"

definition requiredAttribute ::
  "GlTf \<Rightarrow> handle list \<Rightarrow> (string \<times> nat) list \<Rightarrow> string \<times> nat \<Rightarrow> vertex_state
     \<Rightarrow> js_error + vertex_state" where
  "requiredAttribute g gpuBufs attrs entry vs =
     (let (atrrNameInShader, location) = entry
      in case findAttribute atrrNameInShader attrs of
           None \<Rightarrow> Inr vs
         | Some accessorIndex \<Rightarrow>
             (case js_index (accessors g) accessorIndex of
                None \<Rightarrow> Inl (TypeError ''accessor'')
              | Some accessor \<Rightarrow> pushAttribute g gpuBufs (Location location) accessor vs))"

definition otherAttribute ::
  "GlTf \<Rightarrow> handle list \<Rightarrow> string \<times> nat \<Rightarrow> vertex_state \<Rightarrow> js_error + vertex_state" where
  "otherAttribute g gpuBufs entry vs =
     (let (attribName, accessorIndex) = entry
      in case js_index (accessors g) accessorIndex of
           None \<Rightarrow> Inl (TypeError ''accessor'')
         | Some accessor \<Rightarrow>
             (case ShaderLocations_property attribName of
                None \<Rightarrow> Inr vs
              | Some shaderLocation \<Rightarrow> pushAttribute g gpuBufs shaderLocation accessor vs))"

text \<open>
  The two passes of \<^verbatim>\<open>setupPrimitive\<close>: over the shader's attributes, then over the
  primitive's attributes.
\<close>

definition vertexState :: "GlTf \<Rightarrow> handle list \<Rightarrow> MeshPrimitive \<Rightarrow> js_error + vertex_state" where
  "vertexState g gpuBufs primitive =
     (case forEach (requiredAttribute g gpuBufs (attributes primitive)) ShaderLocations
             ([], [], 0) of
        Inl e \<Rightarrow> Inl e
      | Inr vs \<Rightarrow> forEach (otherAttribute g gpuBufs) (attributes primitive) vs)"

definition setupPrimitive ::
  "GLTFGroup \<Rightarrow> nat \<times> nat \<Rightarrow> MeshPrimitive \<Rightarrow> GltfRenderer \<Rightarrow> js_error + GltfRenderer" where
  "setupPrimitive grp key primitive st =
     (case vertexState (gltf grp) (gpuBuffers st) primitive of
        Inl e \<Rightarrow> Inl e
      | Inr (bufferLayout, primitiveGpuBuffers, drawCount') \<Rightarrow>
          (let (pipeline', st1) = createRenderPipeline
                 \<lparr>vertex_buffers = bufferLayout,
                  topology = gpuPrimitiveTopologyForMode (mode primitive)\<rparr> st;
               gpuPrimitive =
                 \<lparr>pipeline = pipeline', buffers = primitiveGpuBuffers, drawCount = drawCount',
                  indexBuffer = None, indexOffset = None, indexType = None\<rparr>
           in case indices primitive of
                None \<Rightarrow>
                  Inr (st1\<lparr>primitiveGpuData := (primitiveGpuData st1)(key \<mapsto> gpuPrimitive)\<rparr>)
              | Some k \<Rightarrow>
                  (case js_index (accessors (gltf grp)) k of
                     None \<Rightarrow> Inl (TypeError ''accessor'')
                   | Some accessor \<Rightarrow>
                       Inr (st1\<lparr>primitiveGpuData := (primitiveGpuData st1)(key \<mapsto>
                              gpuPrimitive
                                \<lparr>indexBuffer := gpuBufferAt (gpuBuffers st1) (acc_bufferView accessor),
                                 indexOffset := acc_byteOffset accessor,
                                 indexType := Some (gpuIndexFormatForComponentType
                                                     (acc_componentType accessor)),
                                 drawCount := acc_count accessor\<rparr>)\<rparr>))))"

section \<open>Initialization\<close>

text \<open>
  The loop of \<^verbatim>\<open>initializeWebGPUAndGLTF\<close> over the primitives of one mesh; the key of a
  primitive is the index of the mesh and the index of the primitive within it.
\<close>

definition setupMesh :: "GLTFGroup \<Rightarrow> nat \<times> Mesh \<Rightarrow> GltfRenderer \<Rightarrow> js_error + GltfRenderer" where
  "setupMesh grp entry st =
     (let (m, mesh) = entry
      in forEach (\<lambda>(j, primitive). setupPrimitive grp (m, j) primitive)
           (enumerate 0 (primitives mesh)) st)"

definition initializeWebGPUAndGLTF :: "GLTFGroup \<Rightarrow> GltfRenderer \<Rightarrow> js_error + GltfRenderer" where
  "initializeWebGPUAndGLTF grp st =
     (case loadGPUBuffers grp st of
        Inl e \<Rightarrow> Inl e
      | Inr st1 \<Rightarrow>
          (case initConstantBindGroup grp st1 of
             Inl e \<Rightarrow> Inl e
           | Inr st2 \<Rightarrow>
               (case initFrameBindGroup grp st2 of
                  Inl e \<Rightarrow> Inl e
                | Inr st3 \<Rightarrow>
                    forEach (setupMesh grp) (enumerate 0 (meshes (gltf grp)))
                      (initNodeBindGroup grp st3))))"

text \<open>
  A renderer whose maps and buffer list are empty and whose other fields are undefined,
  on a device that has created nothing. The constructor itself leaves \<^verbatim>\<open>gpuBuffers\<close>,
  \<^verbatim>\<open>nodeGpuData\<close> and \<^verbatim>\<open>primitiveGpuData\<close> undefined; \<open>init\<close> sets the two
  maps to empty maps and \<open>loadGPUBuffers\<close> sets the buffer list to the empty list
  before either is read, so this is the state that initialization works from.
\<close>

definition newRenderer :: GltfRenderer where
  "newRenderer =
     \<lparr>dev_buffers = [], dev_writes = [], dev_bindGroups = [], dev_pipelines = [],
      primitiveGpuData = Map.empty, gpuBuffers = [], cameraBuffer = None,
      instanceBuffer = None, jointTransformBuffer = None, frameBindGroup = None,
      nodeGpuData = [], jointInfoBuffer = None, inverseBindMatrixBuffer = None,
      constantBindGroup = None, isFirstRenderer = False, canvas_width = 0,
      canvas_height = 0\<rparr>"

definition init ::
  "nat \<Rightarrow> nat \<Rightarrow> GLTFGroup \<Rightarrow> bool \<Rightarrow> GltfRenderer \<Rightarrow> js_error + GltfRenderer" where
  "init width height grp first st =
     initializeWebGPUAndGLTF grp
       (st\<lparr>canvas_width := width, canvas_height := height, isFirstRenderer := first,
           nodeGpuData := [], primitiveGpuData := Map.empty\<rparr>)"

section \<open>renderGLTF: the frame renderer\<close>

datatype pass_command =
    SetBindGroup nat "handle option"
  | SetPipeline handle
  | SetVertexBuffer nat "handle option" "nat option"
  | SetIndexBuffer handle "string option" "nat option"
  | DrawIndexed nat nat nat nat nat
  | Draw nat nat nat nat
  | SetViewport nat nat nat nat nat nat
  | SetScissorRect nat nat nat nat

text \<open>
  One frame: the load operation of the render pass and the commands recorded between
  \<^verbatim>\<open>beginRenderPass\<close> and \<^verbatim>\<open>end\<close>. The frame is then submitted and the next one
  requested; the model is of a single frame.
\<close>

record frame =
  loadOp :: string
  commands :: "pass_command list"

definition drawPrimitive ::
  "GLTFGroup \<Rightarrow> GltfRenderer \<Rightarrow> nat \<Rightarrow> nat \<times> MeshPrimitive \<Rightarrow> pass_command list
     \<Rightarrow> js_error + pass_command list" where
  "drawPrimitive grp st m entry cmds =
     (let (j, primitive) = entry
      in case primitiveGpuData st (m, j) of
           None \<Rightarrow> Inl (TypeError ''gpuPrimitive'')
         | Some gpuPrimitive \<Rightarrow>
             Inr (cmds
                  @ [SetPipeline (pipeline gpuPrimitive)]
                  @ map (\<lambda>(i, bufferInfo). SetVertexBuffer i (buffer bufferInfo) (offset bufferInfo))
                      (enumerate 0 (buffers gpuPrimitive))
                  @ (case indexBuffer gpuPrimitive of
                       Some ib \<Rightarrow>
                         [SetIndexBuffer ib (indexType gpuPrimitive) (indexOffset gpuPrimitive),
                          DrawIndexed (drawCount gpuPrimitive) (instanceCount grp) 0 0 0]
                     | None \<Rightarrow>
                         [Draw (drawCount gpuPrimitive) (instanceCount grp) 0 0])))"

text \<open>
  \<^verbatim>\<open>nodeGpuData\<close> holds the node objects themselves; here a node is its index. A key
  outside the node list cannot arise from \<open>initNodeBindGroup\<close> and is a
  \<^verbatim>\<open>TypeError\<close> in the model.
\<close>

definition drawNode ::
  "GLTFGroup \<Rightarrow> GltfRenderer \<Rightarrow> nat \<times> handle \<Rightarrow> pass_command list
     \<Rightarrow> js_error + pass_command list" where
  "drawNode grp st entry cmds =
     (let (node, bindGroup) = entry
      in case js_index (nodes (gltf grp)) node of
           None \<Rightarrow> Inl (TypeError ''node'')
         | Some n \<Rightarrow>
             (case (case node_mesh n of
                      None \<Rightarrow> None
                    | Some m \<Rightarrow> map_option (Pair m) (js_index (meshes (gltf grp)) m)) of
                None \<Rightarrow> Inl (TypeError ''mesh'')
              | Some (m, mesh) \<Rightarrow>
                  forEach (drawPrimitive grp st m) (enumerate 0 (primitives mesh))
                    (cmds @ [SetBindGroup 2 (Some bindGroup)])))"

definition renderGLTF :: "GLTFGroup \<Rightarrow> GltfRenderer \<Rightarrow> js_error + frame" where
  "renderGLTF grp st =
     (case forEach (drawNode grp st) (nodeGpuData st)
             [SetBindGroup 0 (constantBindGroup st), SetBindGroup 1 (frameBindGroup st)] of
        Inl e \<Rightarrow> Inl e
      | Inr cmds \<Rightarrow>
          Inr \<lparr>loadOp = (if isFirstRenderer st then ''clear'' else ''load''),
               commands = cmds
                 @ [SetViewport 0 0 (canvas_width st) (canvas_height st) 0 1,
                    SetScissorRect 0 0 (canvas_width st) (canvas_height st)]\<rparr>)"

section \<open>Notions used in the statements\<close>

text \<open>The descriptor of the buffer behind a renderer field, when the field holds a handle.\<close>

definition bufferOf :: "GltfRenderer \<Rightarrow> handle option \<Rightarrow> GPUBufferDescriptor option" where
  "bufferOf st h = (case h of None \<Rightarrow> None | Some b \<Rightarrow> js_index (dev_buffers st) b)"

text \<open>
  The byte size that the joint-transform buffer is created with: 16 floats for each joint
  of the first skin and each instance, or four floats when the asset has no skin list.
\<close>

definition jointTransformBufferSize :: "GLTFGroup \<Rightarrow> nat" where
  "jointTransformBufferSize grp =
     (case skins (gltf grp) of
        None \<Rightarrow> 4 * BYTES_PER_ELEMENT
      | Some ss \<Rightarrow> 16 * length (joints (hd ss)) * instanceCount grp * BYTES_PER_ELEMENT)"

text \<open>
  The accessors that a primitive refers to (its index accessor, then its attribute
  accessors), those of all meshes, and the inverse-bind-matrix accessor of the first skin.
  A buffer view is referenced when one of these accessors names it.
\<close>

definition primitiveAccessors :: "MeshPrimitive \<Rightarrow> nat list" where
  "primitiveAccessors primitive =
     (case indices primitive of None \<Rightarrow> [] | Some k \<Rightarrow> [k]) @ map snd (attributes primitive)"

definition meshAccessors :: "GlTf \<Rightarrow> nat list" where
  "meshAccessors g = concat (map primitiveAccessors (concat (map primitives (meshes g))))"

definition skinAccessors :: "GlTf \<Rightarrow> nat list" where
  "skinAccessors g =
     (case skins g of
        Some (skin # rest) \<Rightarrow> (case inverseBindMatrices skin of None \<Rightarrow> [] | Some k \<Rightarrow> [k])
      | _ \<Rightarrow> [])"

definition referenced :: "GlTf \<Rightarrow> nat \<Rightarrow> bool" where
  "referenced g i =
     (\<exists>k \<in> set (meshAccessors g @ skinAccessors g).
        k < length (accessors g) \<and> acc_bufferView (accessors g ! k) = Some i)"

definition viewsOf :: "Accessor list \<Rightarrow> nat \<Rightarrow> nat set" where
  "viewsOf accs k = {i. k < length accs \<and> acc_bufferView (accs ! k) = Some i}"

definition bufferFor :: "GLTFGroup \<Rightarrow> usages \<Rightarrow> nat \<Rightarrow> GPUBufferDescriptor" where
  "bufferFor grp m i =
     (case m i of
        None \<Rightarrow> emptyBuffer
      | Some usage \<Rightarrow>
          dataBuffer (bufferViews (gltf grp) ! i) usage
            (case bufferData0 grp of None \<Rightarrow> [] | Some wholeArray \<Rightarrow> wholeArray))"

definition usageTags :: "nat set" where
  "usageTags = {INDEX, VERTEX, STORAGE OR COPY_DST}"

text \<open>
  The usage tags in the order in which \<^verbatim>\<open>loadGPUBuffers\<close> assigns them, each with
  the index of the accessor whose buffer view it tags: for each primitive its index
  accessor as index data and then its attribute accessors as vertex data, and last the
  first skin's inverse-bind-matrix accessor as storage. The usage of a buffer view is the
  tag of the last of these accessors that names the view. \<open>applyMarks\<close> assigns a
  list of tags in order.
\<close>

definition primitiveMarks :: "MeshPrimitive \<Rightarrow> (nat \<times> nat) list" where
  "primitiveMarks primitive =
     (case indices primitive of None \<Rightarrow> [] | Some k \<Rightarrow> [(INDEX, k)])
     @ map (\<lambda>entry. (VERTEX, snd entry)) (attributes primitive)"

definition assetMarks :: "GlTf \<Rightarrow> (nat \<times> nat) list" where
  "assetMarks g =
     concat (map primitiveMarks (concat (map primitives (meshes g))))
     @ map (Pair (STORAGE OR COPY_DST)) (skinAccessors g)"

definition usageOf :: "GlTf \<Rightarrow> nat \<Rightarrow> nat option" where
  "usageOf g i =
     (case filter (\<lambda>mark. snd mark < length (accessors g)
                      \<and> acc_bufferView (accessors g ! snd mark) = Some i) (assetMarks g) of
        [] \<Rightarrow> None
      | marks \<Rightarrow> Some (fst (last marks)))"

definition applyMarks :: "Accessor list \<Rightarrow> (nat \<times> nat) list \<Rightarrow> usages \<Rightarrow> usages" where
  "applyMarks accs marks m = fold (\<lambda>mark. markUsage (accs ! snd mark) (fst mark)) marks m"

text \<open>
  The attributes that the two passes of \<open>setupPrimitive\<close> process, each with the shader
  location it is given and the index of its accessor: first the shader's attributes that
  the primitive has, in the order of \<open>ShaderLocations\<close>; then the primitive's
  attributes whose name is a member that the \<open>ShaderLocations\<close> object inherits.
\<close>

definition requiredSlots :: "MeshPrimitive \<Rightarrow> (shader_location \<times> nat) list" where
  "requiredSlots primitive =
     List.map_filter
       (\<lambda>(atrrNameInShader, location).
          map_option (Pair (Location location))
            (findAttribute atrrNameInShader (attributes primitive)))
       ShaderLocations"

definition inheritedSlots :: "MeshPrimitive \<Rightarrow> (shader_location \<times> nat) list" where
  "inheritedSlots primitive =
     List.map_filter
       (\<lambda>(attribName, accessorIndex).
          map_option (\<lambda>shaderLocation. (shaderLocation, accessorIndex))
            (ShaderLocations_property attribName))
       (attributes primitive)"

definition processedSlots :: "MeshPrimitive \<Rightarrow> (shader_location \<times> nat) list" where
  "processedSlots primitive = requiredSlots primitive @ inheritedSlots primitive"

text \<open>
  The layout entry and the buffer entry that an attribute contributes, the draw count
  after a sequence of attributes (the element count of the last one, or the count before
  when there is none), and the three locals after a sequence of attributes.
\<close>

definition layoutEntry :: "GlTf \<Rightarrow> shader_location \<times> nat \<Rightarrow> GPUVertexBufferLayout" where
  "layoutEntry g slot =
     (let accessor = accessors g ! snd slot
      in \<lparr>arrayStride =
            (case bufferViewOf g accessor of
               None \<Rightarrow> packedArrayStrideForAccessor accessor
             | Some bufferView \<Rightarrow>
                 (case bv_byteStride bufferView of
                    None \<Rightarrow> packedArrayStrideForAccessor accessor
                  | Some stride \<Rightarrow>
                      if stride = 0 then packedArrayStrideForAccessor accessor else stride)),
          vb_attributes =
            [\<lparr>va_format = gpuFormatForAccessor accessor, va_offset = 0,
              va_shaderLocation = fst slot\<rparr>]\<rparr>)"

definition bufferEntry :: "GlTf \<Rightarrow> handle list \<Rightarrow> shader_location \<times> nat \<Rightarrow> GPUPrimitiveBufferInfo" where
  "bufferEntry g gpuBufs slot =
     (let accessor = accessors g ! snd slot
      in \<lparr>buffer = gpuBufferAt gpuBufs (acc_bufferView accessor),
          offset = acc_byteOffset accessor\<rparr>)"

definition lastCount :: "GlTf \<Rightarrow> nat \<Rightarrow> (shader_location \<times> nat) list \<Rightarrow> nat" where
  "lastCount g n slots =
     (case slots of [] \<Rightarrow> n | _ \<Rightarrow> acc_count (accessors g ! snd (last slots)))"

definition pushed :: "GlTf \<Rightarrow> handle list \<Rightarrow> (shader_location \<times> nat) list \<Rightarrow> vertex_state \<Rightarrow> vertex_state" where
  "pushed g gpuBufs slots vs =
     (fst vs @ map (layoutEntry g) slots,
      fst (snd vs) @ map (bufferEntry g gpuBufs) slots,
      lastCount g (snd (snd vs)) slots)"

text \<open>
  The draw commands among the commands of a pass; the draw that a primitive's stored GPU
  state calls for; and the draws that a node registered in \<open>nodeGpuData\<close> calls for,
  one for each primitive of its mesh. \<open>nodeDrawable\<close> says that what these read is
  there: the node, its mesh, and the stored GPU state of each primitive of the mesh.
\<close>

fun isDraw :: "pass_command \<Rightarrow> bool" where
  "isDraw (DrawIndexed a b c d e) = True"
| "isDraw (Draw a b c d) = True"
| "isDraw other = False"

definition expectedDraw :: "GLTFGroup \<Rightarrow> GPUPrimitiveInfo \<Rightarrow> pass_command" where
  "expectedDraw grp gpuPrimitive =
     (if indexBuffer gpuPrimitive \<noteq> None
      then DrawIndexed (drawCount gpuPrimitive) (instanceCount grp) 0 0 0
      else Draw (drawCount gpuPrimitive) (instanceCount grp) 0 0)"

definition meshOfNode :: "GLTFGroup \<Rightarrow> nat \<Rightarrow> nat" where
  "meshOfNode grp node = the (node_mesh (nodes (gltf grp) ! node))"

definition nodeDraws :: "GLTFGroup \<Rightarrow> GltfRenderer \<Rightarrow> nat \<Rightarrow> pass_command list" where
  "nodeDraws grp st node =
     map (\<lambda>j. expectedDraw grp (the (primitiveGpuData st (meshOfNode grp node, j))))
       [0 ..< length (primitives (meshes (gltf grp) ! meshOfNode grp node))]"

definition nodeDrawable :: "GLTFGroup \<Rightarrow> GltfRenderer \<Rightarrow> nat \<Rightarrow> bool" where
  "nodeDrawable grp st node =
     (node < length (nodes (gltf grp))
      \<and> node_mesh (nodes (gltf grp) ! node) \<noteq> None
      \<and> meshOfNode grp node < length (meshes (gltf grp))
      \<and> (\<forall>j < length (primitives (meshes (gltf grp) ! meshOfNode grp node)).
            primitiveGpuData st (meshOfNode grp node, j) \<noteq> None))"

text \<open>The mesh-bearing nodes of an asset, by index, in node order.\<close>

definition meshNodes :: "GlTf \<Rightarrow> nat list" where
  "meshNodes g =
     map fst (filter (\<lambda>(i, node). node_mesh node \<noteq> None) (enumerate 0 (nodes g)))"

section \<open>Concrete scenes\<close>

text \<open>
  A scene with one mesh of two triangle primitives, the first indexed by three
  unsigned-short indices and the second not indexed, drawn by one node in two instances;
  its third buffer view is referenced by nothing.
\<close>

definition positions :: Accessor where
  "positions = \<lparr>acc_bufferView = Some 0, acc_byteOffset = Some 0, acc_componentType = 5126,
     acc_normalized = False, acc_count = 3, acc_type = ''VEC3''\<rparr>"

definition triangleIndices :: Accessor where
  "triangleIndices = \<lparr>acc_bufferView = Some 1, acc_byteOffset = Some 0,
     acc_componentType = 5123, acc_normalized = False, acc_count = 3, acc_type = ''SCALAR''\<rparr>"

definition triangleGltf :: GlTf where
  "triangleGltf =
     \<lparr>accessors = [positions, triangleIndices],
      bufferViews =
        [\<lparr>bv_name = None, bv_byteOffset = Some 0, bv_byteLength = 36, bv_byteStride = None\<rparr>,
         \<lparr>bv_name = None, bv_byteOffset = Some 36, bv_byteLength = 6, bv_byteStride = None\<rparr>,
         \<lparr>bv_name = None, bv_byteOffset = Some 44, bv_byteLength = 6, bv_byteStride = None\<rparr>],
      meshes =
        [\<lparr>primitives =
            [\<lparr>attributes = [(''POSITION'', 0)], indices = Some 1, mode = Some 4\<rparr>,
             \<lparr>attributes = [(''POSITION'', 0)], indices = None, mode = Some 4\<rparr>]\<rparr>],
      nodes = [\<lparr>node_mesh = Some 0\<rparr>, \<lparr>node_mesh = None\<rparr>],
      skins = None\<rparr>"

definition triangleScene :: GLTFGroup where
  "triangleScene =
     \<lparr>gltf = triangleGltf, instanceCount = 2, transforms = [Mat4 0, Mat4 1],
      nodeMatrics = (\<lambda>node. Some (Mat4 (10 + node))),
      bufferData0 = Some (replicate 50 7)\<rparr>"

text \<open>The same scene with a skin of two joints.\<close>

definition skinnedScene :: GLTFGroup where
  "skinnedScene =
     triangleScene\<lparr>gltf := triangleGltf\<lparr>skins :=
       Some [\<lparr>joints = [1, 0], inverseBindMatrices = Some 0\<rparr>]\<rparr>\<rparr>"

text \<open>
  A primitive with an attribute named \<open>size\<close> beside its positions, and the
  two-triangle scene with this primitive as its only one.
\<close>

definition sizePrimitive :: MeshPrimitive where
  "sizePrimitive =
     \<lparr>attributes = [(''POSITION'', 0), (''size'', 0)], indices = None, mode = Some 4\<rparr>"

definition sizeScene :: GLTFGroup where
  "sizeScene =
     triangleScene\<lparr>gltf := triangleGltf\<lparr>meshes := [\<lparr>primitives = [sizePrimitive]\<rparr>]\<rparr>\<rparr>"

text \<open>A triangle-fan primitive, and the two-triangle scene with it as its only one.\<close>

definition fanPrimitive :: MeshPrimitive where
  "fanPrimitive = \<lparr>attributes = [(''POSITION'', 0)], indices = None, mode = Some 6\<rparr>"

definition fanScene :: GLTFGroup where
  "fanScene =
     triangleScene\<lparr>gltf := triangleGltf\<lparr>meshes := [\<lparr>primitives = [fanPrimitive]\<rparr>]\<rparr>\<rparr>"

text \<open>
  The two-triangle scene with four positions and six indices, so that the two element
  counts differ.
\<close>

definition quadScene :: GLTFGroup where
  "quadScene =
     triangleScene\<lparr>gltf := triangleGltf\<lparr>accessors :=
       [positions\<lparr>acc_count := 4\<rparr>, triangleIndices\<lparr>acc_count := 6\<rparr>]\<rparr>\<rparr>"

section \<open>Properties of the format mapper\<close>

lemma numberToString_3: "numberToString 3 = ''3''"
  by (simp add: numberToString.simps)

text \<open>
  C6. For every accessor of element type VEC3 and component type unsigned byte whose
  normalized flag is set, \<open>gpuFormatForAccessor\<close> returns the string \<open>unorm8x3\<close>; for
  every accessor of element type SCALAR and component type float it returns \<open>float32\<close>,
  with no multiplicity suffix.
\<close>

theorem gpuFormatForAccessor_unorm8x3_float32:
  "(acc_type a = ''VEC3'' \<and> acc_componentType a = GL_UNSIGNED_BYTE \<and> acc_normalized a
      \<longrightarrow> gpuFormatForAccessor a = Some ''unorm8x3'')
   \<and> (acc_type a = ''SCALAR'' \<and> acc_componentType a = GL_FLOAT
      \<longrightarrow> gpuFormatForAccessor a = Some ''float32'')"
  by (simp add: gpuFormatForAccessor_def componentCountForType_def GL_defs numberToString_3)

theorem gpuFormatForAccessor_unorm8x3_float32_witness:
  "gpuFormatForAccessor \<lparr>acc_bufferView = Some 0, acc_byteOffset = Some 0,
       acc_componentType = 5121, acc_normalized = True, acc_count = 3,
       acc_type = ''VEC3''\<rparr> = Some ''unorm8x3''
   \<and> gpuFormatForAccessor \<lparr>acc_bufferView = Some 0, acc_byteOffset = Some 0,
       acc_componentType = 5126, acc_normalized = False, acc_count = 3,
       acc_type = ''SCALAR''\<rparr> = Some ''float32''"
  using gpuFormatForAccessor_unorm8x3_float32 [of "\<lparr>acc_bufferView = Some 0,
       acc_byteOffset = Some 0, acc_componentType = 5121, acc_normalized = True,
       acc_count = 3, acc_type = ''VEC3''\<rparr>"]
    gpuFormatForAccessor_unorm8x3_float32 [of "\<lparr>acc_bufferView = Some 0,
       acc_byteOffset = Some 0, acc_componentType = 5126, acc_normalized = False,
       acc_count = 3, acc_type = ''SCALAR''\<rparr>"]
  by (simp add: GL_defs)

text \<open>
  C7. \<open>gpuIndexFormatForComponentType\<close> returns the 16-bit index format exactly when
  its input is unsigned-short, and the 32-bit index format for every other component
  type, unsigned-int included. It is a function of its input alone, so two calls with
  the same input give the same result.
\<close>

theorem gpuIndexFormatForComponentType_narrowing:
  "(gpuIndexFormatForComponentType c = ''uint16'') = (c = GL_UNSIGNED_SHORT)
   \<and> (c \<noteq> GL_UNSIGNED_SHORT \<longrightarrow> gpuIndexFormatForComponentType c = ''uint32'')
   \<and> gpuIndexFormatForComponentType GL_UNSIGNED_INT = ''uint32''
   \<and> (c = c' \<longrightarrow> gpuIndexFormatForComponentType c = gpuIndexFormatForComponentType c')"
  by (simp add: gpuIndexFormatForComponentType_def GL_defs)

theorem gpuIndexFormatForComponentType_narrowing_witness:
  "gpuIndexFormatForComponentType 5123 = ''uint16''
   \<and> gpuIndexFormatForComponentType 5125 = ''uint32''
   \<and> gpuIndexFormatForComponentType 5121 = ''uint32''
   \<and> gpuIndexFormatForComponentType 5126 = ''uint32''"
  using gpuIndexFormatForComponentType_narrowing [of 5123 5123]
    gpuIndexFormatForComponentType_narrowing [of 5125 5125]
    gpuIndexFormatForComponentType_narrowing [of 5121 5121]
    gpuIndexFormatForComponentType_narrowing [of 5126 5126]
  by (simp add: GL_defs)

section \<open>Loops and device calls\<close>

lemma forEach_error_source:
  "forEach body xs s = Inl e \<Longrightarrow> \<exists>x \<in> set xs. \<exists>s0. body x s0 = Inl e"
  by (induction xs arbitrary: s) (auto split: sum.splits)

lemma forEach_invariant:
  "forEach body xs s = Inr s' \<Longrightarrow> P s
   \<Longrightarrow> (\<And>x a b. x \<in> set xs \<Longrightarrow> P a \<Longrightarrow> body x a = Inr b \<Longrightarrow> P b) \<Longrightarrow> P s'"
proof (induction xs arbitrary: s)
  case Nil
  then show ?case by simp
next
  case (Cons x xs)
  from Cons.prems(1) obtain s1 where b: "body x s = Inr s1" and r: "forEach body xs s1 = Inr s'"
    by (auto split: sum.splits)
  have p1: "P s1" using Cons.prems(3) [of x s s1] Cons.prems(2) b by simp
  show ?case
  proof (rule Cons.IH [OF r p1])
    fix y a b
    assume "y \<in> set xs" "P a" "body y a = Inr b"
    then show "P b" using Cons.prems(3) [of y a b] by simp
  qed
qed

lemma forEach_returns:
  assumes "P s"
    and "\<And>x a. x \<in> set xs \<Longrightarrow> P a \<Longrightarrow> \<exists>b. body x a = Inr b \<and> P b"
  shows "\<exists>s'. forEach body xs s = Inr s' \<and> P s'"
  using assms
proof (induction xs arbitrary: s)
  case Nil
  then show ?case by simp
next
  case (Cons x xs)
  from Cons.prems(2) [of x s] Cons.prems(1) obtain s1 where b: "body x s = Inr s1" and p: "P s1"
    by auto
  have "\<exists>s'. forEach body xs s1 = Inr s' \<and> P s'"
    by (rule Cons.IH [OF p]) (use Cons.prems(2) in auto)
  with b show ?case by simp
qed

lemma forEach_establishes:
  assumes "forEach body xs s = Inr s'"
    and "\<And>x a b. x \<in> set xs \<Longrightarrow> body x a = Inr b \<Longrightarrow> Q x b"
    and "\<And>x y a b. y \<in> set xs \<Longrightarrow> body y a = Inr b \<Longrightarrow> Q x a \<Longrightarrow> Q x b"
  shows "\<forall>x \<in> set xs. Q x s'"
  using assms
proof (induction xs arbitrary: s)
  case Nil
  then show ?case by simp
next
  case (Cons x xs)
  from Cons.prems(1) obtain s1 where b: "body x s = Inr s1" and r: "forEach body xs s1 = Inr s'"
    by (auto split: sum.splits)
  have q: "Q x s1" using Cons.prems(2) [of x s s1] b by simp
  have "Q x s'"
    by (rule forEach_invariant [OF r, where P = "Q x", OF q]) (use Cons.prems(3) in auto)
  moreover have "\<forall>y \<in> set xs. Q y s'"
  proof (rule Cons.IH [OF r])
    fix y a b
    assume "y \<in> set xs" "body y a = Inr b"
    then show "Q y b" using Cons.prems(2) [of y a b] by simp
  next
    fix z y a b
    assume "y \<in> set xs" "body y a = Inr b" "Q z a"
    then show "Q z b" using Cons.prems(3) [of y a b z] by simp
  qed
  ultimately show ?case by simp
qed

lemma fold_writeBuffer:
  "fold (\<lambda>i. writeBuffer b (f i) d) is st =
     st\<lparr>dev_writes := dev_writes st @ map (\<lambda>i. \<lparr>wr_buffer = b, wr_offset = f i, wr_data = d\<rparr>) is\<rparr>"
  by (induction "is" arbitrary: st) (simp_all add: writeBuffer_def)

lemma updateInstanceBuffer_result:
  "updateInstanceBuffer grp st = Inr st' \<Longrightarrow> \<exists>d. st' = writeBuffer (instanceBuffer st) 0 d st"
  by (auto simp: updateInstanceBuffer_def split: sum.splits)

section \<open>Properties of the bind group builder\<close>

lemma initJointTransformBuffer_result:
  assumes "initJointTransformBuffer grp (instanceCount grp) st = Inr st'"
  shows "\<exists>ws. st' = st\<lparr>dev_buffers := dev_buffers st @
                       [plainBuffer (jointTransformBufferSize grp) (STORAGE OR COPY_DST)],
                     jointTransformBuffer := Some (length (dev_buffers st)),
                     dev_writes := dev_writes st @ ws\<rparr>"
proof (cases "skins (gltf grp)")
  case None
  then show ?thesis using assms
    by (auto simp: initJointTransformBuffer_def createBuffer_def jointTransformBufferSize_def
        intro!: exI [of _ "[]"])
next
  case (Some ss)
  then show ?thesis using assms
    by (auto simp: initJointTransformBuffer_def createBuffer_def jointTransformBufferSize_def
        skin0_def fold_writeBuffer Let_def split: sum.splits list.splits)
qed

lemma initFrameBindGroup_result:
  assumes "initFrameBindGroup grp st = Inr st'"
  shows "dev_buffers st' = dev_buffers st @
           [plainBuffer (FRAMEBUFFERSIZE * BYTES_PER_ELEMENT) (UNIFORM OR COPY_DST),
            plainBuffer (16 * instanceCount grp * BYTES_PER_ELEMENT) (STORAGE OR COPY_DST),
            plainBuffer (jointTransformBufferSize grp) (STORAGE OR COPY_DST)]
       \<and> cameraBuffer st' = Some (length (dev_buffers st))
       \<and> instanceBuffer st' = Some (length (dev_buffers st) + 1)
       \<and> jointTransformBuffer st' = Some (length (dev_buffers st) + 2)"
  using assms
  apply (clarsimp simp: initFrameBindGroup_def Let_def createBuffer_def createBindGroup_def
      split: sum.splits)
  apply (drule updateInstanceBuffer_result)
  apply (drule initJointTransformBuffer_result)
  apply (clarsimp simp: writeBuffer_def)
  done

text \<open>
  \<open>initFrameBindGroup\<close> returns when the scene has no more transforms than instances
  and every joint of the first skin has a resolved node matrix.
\<close>

lemma setBlock_in_range:
  "n < length blocks \<Longrightarrow> setBlock (n, Some v) blocks = Inr (blocks[n := Some v])"
  by (simp add: setBlock_def)

lemma setBlock_loop_returns:
  assumes "n + length ms \<le> length blocks" and "\<forall>m \<in> set ms. m \<noteq> None"
  shows "\<exists>blocks'. forEach setBlock (enumerate n ms) blocks = Inr blocks'
           \<and> length blocks' = length blocks"
  using assms
proof (induction ms arbitrary: n blocks)
  case Nil
  then show ?case by simp
next
  case (Cons m ms)
  from Cons.prems obtain v where v: "m = Some v" by auto
  from Cons.prems have n: "n < length blocks" by simp
  have "\<exists>blocks'. forEach setBlock (enumerate (Suc n) ms) (blocks[n := Some v]) = Inr blocks'
           \<and> length blocks' = length (blocks[n := Some v])"
    by (rule Cons.IH) (use Cons.prems in auto)
  then show ?case using n v by (simp add: setBlock_in_range)
qed

lemma initFrameBindGroup_returns:
  assumes "length (transforms grp) \<le> instanceCount grp"
    and "skins (gltf grp) = None
         \<or> (\<exists>skin rest. skins (gltf grp) = Some (skin # rest)
              \<and> (\<forall>joint \<in> set (joints skin). jointMatrix grp joint \<noteq> None))"
  shows "\<exists>st'. initFrameBindGroup grp st = Inr st'"
proof -
  have inst: "\<exists>b. forEach setBlock (enumerate 0 (map Some (transforms grp)))
             (replicate (instanceCount grp) None) = Inr b
             \<and> length b = length (replicate (instanceCount grp) (None :: mat4 option))"
    by (rule setBlock_loop_returns) (use assms(1) in auto)
  then have upd: "\<exists>b. updateInstanceBuffer grp a = Inr b" for a
    by (auto simp: updateInstanceBuffer_def)
  have joint: "\<exists>b. initJointTransformBuffer grp n a = Inr b" for n a
  proof (cases "skins (gltf grp)")
    case None
    then show ?thesis by (simp add: initJointTransformBuffer_def createBuffer_def)
  next
    case (Some ss)
    with assms(2) obtain skin rest where s: "ss = skin # rest"
      and j: "\<forall>joint \<in> set (joints skin). jointMatrix grp joint \<noteq> None" by auto
    have "\<exists>b. forEach setBlock (enumerate 0 (map (jointMatrix grp) (joints skin)))
             (replicate (length (joints skin)) None) = Inr b
             \<and> length b = length (replicate (length (joints skin)) (None :: mat4 option))"
      by (rule setBlock_loop_returns) (use j in auto)
    then show ?thesis
      using Some s by (auto simp: initJointTransformBuffer_def skin0_def createBuffer_def Let_def)
  qed
  show ?thesis
    using upd joint
    apply (simp add: initFrameBindGroup_def Let_def createBuffer_def createBindGroup_def
        split: sum.splits prod.splits)
    apply (metis sum.exhaust sum.distinct(1) old.sum.inject(2) Inl_Inr_False)
    done
qed

text \<open>
  C1. The camera uniform buffer is meant to hold 36 floats, 144 bytes, which is what
  \<open>updateCameraBuffer\<close> writes. \<open>FRAMEBUFFERSIZE\<close> is already that byte count, and
  \<open>initFrameBindGroup\<close> multiplies it by the size of a float once more: on the two-triangle
  scene the camera buffer is created with 576 bytes.
\<close>

theorem cameraBuffer_created_with_576_bytes:
  "(case initFrameBindGroup triangleScene newRenderer of
      Inl e \<Rightarrow> None
    | Inr st' \<Rightarrow> map_option buf_size (bufferOf st' (cameraBuffer st'))) = Some 576
   \<and> FRAMEBUFFERSIZE = 36 * BYTES_PER_ELEMENT
   \<and> FRAMEBUFFERSIZE = 144
   \<and> byteLength (CameraState (Mat4 0) (Mat4 1) (Vec3 0) (Seconds 0)) = 144"
  by code_simp

text \<open>
  C5. When \<open>initFrameBindGroup\<close> returns, the joint-transform buffer is a buffer created
  by this call. For an asset whose first skin has J joints, drawn in N instances, its
  size is 16 * J * N floats; for an asset without a skin list it is 4 floats.
\<close>

theorem initFrameBindGroup_jointTransformBuffer_size:
  assumes "initFrameBindGroup grp st = Inr st'"
  shows "\<exists>h b. jointTransformBuffer st' = Some h \<and> length (dev_buffers st) \<le> h
           \<and> js_index (dev_buffers st') h = Some b
           \<and> (\<forall>skin rest. skins (gltf grp) = Some (skin # rest) \<longrightarrow>
                 buf_size b = 16 * length (joints skin) * instanceCount grp * BYTES_PER_ELEMENT)
           \<and> (skins (gltf grp) = None \<longrightarrow> buf_size b = 4 * BYTES_PER_ELEMENT)"
  using initFrameBindGroup_result [OF assms]
  by (auto simp: js_index_def jointTransformBufferSize_def plainBuffer_def nth_append)

theorem initFrameBindGroup_jointTransformBuffer_size_witness:
  "(\<exists>st'. initFrameBindGroup skinnedScene newRenderer = Inr st'
      \<and> map_option buf_size (bufferOf st' (jointTransformBuffer st'))
          = Some (16 * 2 * 2 * BYTES_PER_ELEMENT))
   \<and> (\<exists>st'. initFrameBindGroup triangleScene newRenderer = Inr st'
      \<and> map_option buf_size (bufferOf st' (jointTransformBuffer st'))
          = Some (4 * BYTES_PER_ELEMENT))"
proof -
  have "\<not> isl (initFrameBindGroup skinnedScene newRenderer)" by code_simp
  then obtain s1 where s1: "initFrameBindGroup skinnedScene newRenderer = Inr s1"
    by (cases "initFrameBindGroup skinnedScene newRenderer") auto
  have "\<not> isl (initFrameBindGroup triangleScene newRenderer)" by code_simp
  then obtain s2 where s2: "initFrameBindGroup triangleScene newRenderer = Inr s2"
    by (cases "initFrameBindGroup triangleScene newRenderer") auto
  have k1: "skins (gltf skinnedScene) = Some [\<lparr>joints = [1, 0], inverseBindMatrices = Some 0\<rparr>]"
    "instanceCount skinnedScene = 2"
    by (simp_all add: skinnedScene_def triangleScene_def triangleGltf_def)
  have k2: "skins (gltf triangleScene) = None"
    by (simp add: triangleScene_def triangleGltf_def)
  from initFrameBindGroup_jointTransformBuffer_size [OF s1] k1
  have "map_option buf_size (bufferOf s1 (jointTransformBuffer s1))
          = Some (16 * 2 * 2 * BYTES_PER_ELEMENT)"
    by (auto simp: bufferOf_def)
  moreover from initFrameBindGroup_jointTransformBuffer_size [OF s2] k2
  have "map_option buf_size (bufferOf s2 (jointTransformBuffer s2)) = Some (4 * BYTES_PER_ELEMENT)"
    by (auto simp: bufferOf_def)
  ultimately show ?thesis using s1 s2 by blast
qed

section \<open>Properties of the resource uploader\<close>

lemma markMeshes_error:
  assumes "markMeshes g m = Inl e" shows "e = TypeError ''accessor''"
proof -
  have acc: "\<And>u k m. markAccessor (accessors g) u k m = Inl e \<Longrightarrow> e = TypeError ''accessor''"
    by (auto simp: markAccessor_def split: option.splits)
  have prim: "\<And>p m. markPrimitive (accessors g) p m = Inl e \<Longrightarrow> e = TypeError ''accessor''"
    by (auto simp: markPrimitive_def split: option.splits sum.splits dest!: forEach_error_source acc)
  show ?thesis using assms
    by (auto simp: markMeshes_def dest!: forEach_error_source prim)
qed

lemma uploadBufferView_error:
  "uploadBufferView grp m i st = Inl e \<Longrightarrow> e = TypeError ''bufferView'' \<or> e = Rejected ''bufferData''"
  by (auto simp: uploadBufferView_def createBuffer_def split: option.splits prod.splits)

lemma updateInstanceBuffer_error:
  "updateInstanceBuffer grp st = Inl e \<Longrightarrow> e = TypeError ''mat'' \<or> e = RangeError ''Float32Array''"
  by (auto simp: updateInstanceBuffer_def setBlock_def split: sum.splits option.splits if_splits
      dest!: forEach_error_source)

lemma forEach_dom:
  assumes "forEach body xs s = Inr s'"
    and "\<And>x a b. x \<in> set xs \<Longrightarrow> body x a = Inr b \<Longrightarrow> dom b = dom a \<union> D x"
  shows "dom s' = dom s \<union> (\<Union>x \<in> set xs. D x)"
  using assms
proof (induction xs arbitrary: s)
  case Nil
  then show ?case by simp
next
  case (Cons x xs)
  from Cons.prems(1) obtain s1 where b: "body x s = Inr s1" and r: "forEach body xs s1 = Inr s'"
    by (auto split: sum.splits)
  have d1: "dom s1 = dom s \<union> D x" using Cons.prems(2) [of x s s1] b by simp
  have "dom s' = dom s1 \<union> (\<Union>y \<in> set xs. D y)"
    by (rule Cons.IH [OF r]) (use Cons.prems(2) in auto)
  with d1 show ?case by auto
qed

lemma markAccessor_dom:
  "markAccessor accs u k m = Inr m' \<Longrightarrow> dom m' = dom m \<union> viewsOf accs k"
  by (auto simp: markAccessor_def markUsage_def viewsOf_def js_index_def
      split: option.splits if_splits)

lemma markPrimitive_dom:
  assumes "markPrimitive accs p m = Inr m'"
  shows "dom m' = dom m \<union> (\<Union>k \<in> set (primitiveAccessors p). viewsOf accs k)"
proof -
  from assms obtain m1 where
    a: "(case indices p of None \<Rightarrow> Inr m | Some k \<Rightarrow> markAccessor accs INDEX k m) = Inr m1"
    and b: "forEach (markAccessor accs VERTEX) (map snd (attributes p)) m1 = Inr m'"
    by (auto simp: markPrimitive_def split: sum.splits)
  have d1: "dom m1 = dom m \<union> (\<Union>k \<in> set (case indices p of None \<Rightarrow> [] | Some k \<Rightarrow> [k]). viewsOf accs k)"
  proof (cases "indices p")
    case None
    then show ?thesis using a by simp
  next
    case (Some k)
    then show ?thesis using a markAccessor_dom [of accs INDEX k m m1] by simp
  qed
  have "dom m' = dom m1 \<union> (\<Union>k \<in> set (map snd (attributes p)). viewsOf accs k)"
    by (rule forEach_dom [OF b]) (rule markAccessor_dom)
  with d1 show ?thesis by (auto simp: primitiveAccessors_def)
qed

lemma markMeshes_dom:
  assumes "markMeshes g m = Inr m'"
  shows "dom m' = dom m \<union> (\<Union>k \<in> set (meshAccessors g). viewsOf (accessors g) k)"
proof -
  have mesh: "\<And>mesh a b. forEach (markPrimitive (accessors g)) (primitives mesh) a = Inr b
      \<Longrightarrow> dom b = dom a \<union> (\<Union>p \<in> set (primitives mesh).
             \<Union>k \<in> set (primitiveAccessors p). viewsOf (accessors g) k)"
    by (erule forEach_dom) (rule markPrimitive_dom)
  have "dom m' = dom m \<union> (\<Union>mesh \<in> set (meshes g). \<Union>p \<in> set (primitives mesh).
             \<Union>k \<in> set (primitiveAccessors p). viewsOf (accessors g) k)"
    using assms unfolding markMeshes_def by (rule forEach_dom) (rule mesh)
  then show ?thesis by (auto simp: meshAccessors_def)
qed

lemma markSkin_dom:
  assumes "markSkin g m = Inr m'"
  shows "dom m' = dom m \<union> (\<Union>k \<in> set (skinAccessors g). viewsOf (accessors g) k)"
  using assms
  by (auto simp: markSkin_def inverseBindAccessor_def skin0_def skinAccessors_def markUsage_def
      viewsOf_def js_index_def Let_def split: option.splits list.splits sum.splits if_splits)

lemma marked_iff_referenced:
  assumes "markMeshes g Map.empty = Inr m1" and "markSkin g m1 = Inr m"
  shows "(m i \<noteq> None) = referenced g i"
proof -
  have "dom m = (\<Union>k \<in> set (meshAccessors g @ skinAccessors g). viewsOf (accessors g) k)"
    using markMeshes_dom [OF assms(1)] markSkin_dom [OF assms(2)] by auto
  then show ?thesis by (auto simp: referenced_def viewsOf_def dom_def)
qed

lemma uploadBufferView_result:
  assumes "uploadBufferView grp m i st = Inr st'"
  shows "st' = st\<lparr>dev_buffers := dev_buffers st @ [bufferFor grp m i],
                  gpuBuffers := gpuBuffers st @ [length (dev_buffers st)]\<rparr>
         \<and> (m i \<noteq> None \<longrightarrow> bufferData0 grp \<noteq> None \<and> i < length (bufferViews (gltf grp)))"
  using assms
  by (auto simp: uploadBufferView_def createBuffer_def bufferFor_def js_index_def
      split: option.splits if_splits)

lemma upt_add_Suc: "[n ..< n + Suc k] = n # [Suc n ..< Suc n + k]"
  using upt_conv_Cons [of n "n + Suc k"] by (simp del: upt_Suc)

lemma upload_loop_result:
  assumes "forEach (uploadBufferView grp m) is st = Inr st'"
  shows "dev_buffers st' = dev_buffers st @ map (bufferFor grp m) is
       \<and> gpuBuffers st' = gpuBuffers st @
            [length (dev_buffers st) ..< length (dev_buffers st) + length is]
       \<and> (\<forall>i \<in> set is. m i \<noteq> None \<longrightarrow> bufferData0 grp \<noteq> None)"
  using assms
proof (induction "is" arbitrary: st)
  case Nil
  then show ?case by simp
next
  case (Cons i "is")
  from Cons.prems obtain s1 where b: "uploadBufferView grp m i st = Inr s1"
    and r: "forEach (uploadBufferView grp m) is s1 = Inr st'"
    by (auto split: sum.splits)
  note u = uploadBufferView_result [OF b]
  from u have s1: "dev_buffers s1 = dev_buffers st @ [bufferFor grp m i]"
    "gpuBuffers s1 = gpuBuffers st @ [length (dev_buffers st)]" by simp_all
  have upt: "[length (dev_buffers st) ..< length (dev_buffers st) + length (i # is)] =
      length (dev_buffers st) # [length (dev_buffers s1) ..< length (dev_buffers s1) + length is]"
    using upt_add_Suc [of "length (dev_buffers st)" "length is"] by (simp add: s1 del: upt_Suc)
  from Cons.IH [OF r] u show ?case
    unfolding upt by (simp add: s1)
qed

lemma markUsage_tags:
  "u \<in> usageTags \<Longrightarrow> \<forall>i v. m i = Some v \<longrightarrow> v \<in> usageTags
   \<Longrightarrow> \<forall>i v. markUsage accessor u m i = Some v \<longrightarrow> v \<in> usageTags"
  by (cases "acc_bufferView accessor") (simp_all add: markUsage_def)

lemma markAccessor_tags:
  "markAccessor accs u k m = Inr m' \<Longrightarrow> u \<in> usageTags
   \<Longrightarrow> \<forall>i v. m i = Some v \<longrightarrow> v \<in> usageTags
   \<Longrightarrow> \<forall>i v. m' i = Some v \<longrightarrow> v \<in> usageTags"
  using markUsage_tags [of u m]
  by (cases "js_index accs k") (auto simp: markAccessor_def)

lemma markPrimitive_tags:
  assumes "markPrimitive accs p m = Inr m'" and "\<forall>i v. m i = Some v \<longrightarrow> v \<in> usageTags"
  shows "\<forall>i v. m' i = Some v \<longrightarrow> v \<in> usageTags"
proof -
  from assms(1) obtain m1 where
    a: "(case indices p of None \<Rightarrow> Inr m | Some k \<Rightarrow> markAccessor accs INDEX k m) = Inr m1"
    and b: "forEach (markAccessor accs VERTEX) (map snd (attributes p)) m1 = Inr m'"
    by (auto simp: markPrimitive_def split: sum.splits)
  have m1: "\<forall>i v. m1 i = Some v \<longrightarrow> v \<in> usageTags"
  proof (cases "indices p")
    case None
    then show ?thesis using a assms(2) by simp
  next
    case (Some k)
    then show ?thesis using a assms(2) markAccessor_tags [of accs INDEX k m m1]
      by (simp add: usageTags_def)
  qed
  show ?thesis
  proof (rule forEach_invariant [OF b, where P = "\<lambda>m. \<forall>i v. m i = Some v \<longrightarrow> v \<in> usageTags"])
    show "\<forall>i v. m1 i = Some v \<longrightarrow> v \<in> usageTags" by (rule m1)
  next
    fix k a b
    assume "\<forall>i v. a i = Some v \<longrightarrow> v \<in> usageTags" "markAccessor accs VERTEX k a = Inr b"
    then show "\<forall>i v. b i = Some v \<longrightarrow> v \<in> usageTags"
      using markAccessor_tags [of accs VERTEX k a b] by (simp add: usageTags_def)
  qed
qed

lemma markMeshes_tags:
  assumes "markMeshes g Map.empty = Inr m"
  shows "\<forall>i v. m i = Some v \<longrightarrow> v \<in> usageTags"
proof (rule forEach_invariant [OF assms [unfolded markMeshes_def],
      where P = "\<lambda>m. \<forall>i v. m i = Some v \<longrightarrow> v \<in> usageTags"])
  show "\<forall>i v. Map.empty i = Some v \<longrightarrow> v \<in> usageTags" by simp
next
  fix mesh a b
  assume a: "\<forall>i v. a i = Some v \<longrightarrow> v \<in> usageTags"
    and l: "forEach (markPrimitive (accessors g)) (primitives mesh) a = Inr b"
  show "\<forall>i v. b i = Some v \<longrightarrow> v \<in> usageTags"
  proof (rule forEach_invariant [OF l, where P = "\<lambda>m. \<forall>i v. m i = Some v \<longrightarrow> v \<in> usageTags"])
    show "\<forall>i v. a i = Some v \<longrightarrow> v \<in> usageTags" by (rule a)
  next
    fix p c d
    assume "\<forall>i v. c i = Some v \<longrightarrow> v \<in> usageTags" "markPrimitive (accessors g) p c = Inr d"
    then show "\<forall>i v. d i = Some v \<longrightarrow> v \<in> usageTags"
      using markPrimitive_tags [of "accessors g" p c d] by simp
  qed
qed

lemma markSkin_tags:
  assumes "markSkin g m = Inr m'" and "\<forall>i v. m i = Some v \<longrightarrow> v \<in> usageTags"
  shows "\<forall>i v. m' i = Some v \<longrightarrow> v \<in> usageTags"
proof (cases "skins g")
  case None
  then show ?thesis using assms by (simp add: markSkin_def)
next
  case (Some ss)
  with assms(1) obtain accessor where "m' = markUsage accessor (STORAGE OR COPY_DST) m"
    by (auto simp: markSkin_def split: sum.splits)
  then show ?thesis
    using markUsage_tags [of "STORAGE OR COPY_DST" m accessor] assms(2)
    by (simp add: usageTags_def)
qed

text \<open>
  \<open>loadGPUBuffers\<close> returns when every accessor that the meshes name exists, the
  first skin (if the asset has a skin list) names an existing inverse-bind-matrix
  accessor, and the binary payload arrives.
\<close>

lemma markAccessor_in_range:
  "k < length accs \<Longrightarrow> markAccessor accs u k m = Inr (markUsage (accs ! k) u m)"
  by (simp add: markAccessor_def js_index_def)

lemma markPrimitive_returns:
  assumes "\<forall>k \<in> set (primitiveAccessors p). k < length accs"
  shows "\<exists>m'. markPrimitive accs p m = Inr m'"
proof -
  have idx: "\<exists>m1. (case indices p of None \<Rightarrow> Inr m | Some k \<Rightarrow> markAccessor accs INDEX k m) = Inr m1"
    using assms by (cases "indices p") (simp_all add: primitiveAccessors_def markAccessor_in_range)
  then obtain m1 where m1: "(case indices p of None \<Rightarrow> Inr m | Some k \<Rightarrow> markAccessor accs INDEX k m) = Inr m1"
    by blast
  have "\<exists>m'. forEach (markAccessor accs VERTEX) (map snd (attributes p)) m1 = Inr m' \<and> True"
    by (rule forEach_returns [where P = "\<lambda>_. True"])
      (use assms in \<open>auto simp: primitiveAccessors_def markAccessor_in_range\<close>)
  then show ?thesis using m1 by (simp add: markPrimitive_def)
qed

lemma markMeshes_returns:
  assumes "\<forall>k \<in> set (meshAccessors g). k < length (accessors g)"
  shows "\<exists>m'. markMeshes g m = Inr m'"
proof -
  have prim: "\<exists>b. markPrimitive (accessors g) p a = Inr b \<and> True"
    if "mesh \<in> set (meshes g)" "p \<in> set (primitives mesh)" for mesh p a
    using markPrimitive_returns [of p "accessors g" a] assms that
    by (auto simp: meshAccessors_def)
  have mesh: "\<exists>b. forEach (markPrimitive (accessors g)) (primitives mesh) a = Inr b \<and> True"
    if "mesh \<in> set (meshes g)" for mesh a
    by (rule forEach_returns [where P = "\<lambda>_. True"]) (use prim that in auto)
  have "\<exists>m'. forEach (\<lambda>mesh. forEach (markPrimitive (accessors g)) (primitives mesh)) (meshes g) m
          = Inr m' \<and> True"
    by (rule forEach_returns [where P = "\<lambda>_. True"]) (use mesh in auto)
  then show ?thesis by (simp add: markMeshes_def)
qed

lemma loadGPUBuffers_returns:
  assumes "\<forall>k \<in> set (meshAccessors (gltf grp)). k < length (accessors (gltf grp))"
    and "skins (gltf grp) = None
         \<or> (\<exists>skin rest k. skins (gltf grp) = Some (skin # rest)
              \<and> inverseBindMatrices skin = Some k \<and> k < length (accessors (gltf grp)))"
    and "bufferData0 grp \<noteq> None"
  shows "\<exists>st'. loadGPUBuffers grp st = Inr st'"
proof -
  from markMeshes_returns [OF assms(1)] obtain m1 where
    m1: "markMeshes (gltf grp) Map.empty = Inr m1" by blast
  have "\<exists>m. markSkin (gltf grp) m1 = Inr m"
    using assms(2)
    by (auto simp: markSkin_def inverseBindAccessor_def skin0_def js_index_def)
  then obtain m where m: "markSkin (gltf grp) m1 = Inr m" by blast
  have up: "\<exists>b. uploadBufferView grp m i a = Inr b \<and> True"
    if "i \<in> set [0 ..< length (bufferViews (gltf grp))]" for i a
    using that assms(3)
    by (auto simp: uploadBufferView_def js_index_def createBuffer_def split: option.splits)
  have "\<exists>st'. forEach (uploadBufferView grp m) [0 ..< length (bufferViews (gltf grp))]
          (st\<lparr>gpuBuffers := []\<rparr>) = Inr st' \<and> True"
    by (rule forEach_returns [where P = "\<lambda>_. True"]) (use up in auto)
  then show ?thesis using m1 m by (simp add: loadGPUBuffers_def)
qed

lemma applyMarks_append:
  "applyMarks accs (xs @ ys) m = applyMarks accs ys (applyMarks accs xs m)"
  by (simp add: applyMarks_def)

lemma applyMarks_Nil [simp]: "applyMarks accs [] m = m"
  by (simp add: applyMarks_def)

lemma markAccessor_applyMarks:
  "markAccessor accs u k m = Inr m' \<Longrightarrow> m' = applyMarks accs [(u, k)] m \<and> k < length accs"
  by (auto simp: markAccessor_def applyMarks_def js_index_def split: option.splits if_splits)

lemma forEach_applyMarks:
  assumes "forEach body xs m = Inr m'"
    and "\<And>x a b. x \<in> set xs \<Longrightarrow> body x a = Inr b \<Longrightarrow>
           b = applyMarks accs (M x) a \<and> (\<forall>mark \<in> set (M x). snd mark < length accs)"
  shows "m' = applyMarks accs (concat (map M xs)) m
       \<and> (\<forall>mark \<in> set (concat (map M xs)). snd mark < length accs)"
  using assms
proof (induction xs arbitrary: m)
  case Nil
  then show ?case by simp
next
  case (Cons x xs)
  from Cons.prems(1) obtain m1 where b: "body x m = Inr m1" and r: "forEach body xs m1 = Inr m'"
    by (auto split: sum.splits)
  from Cons.prems(2) [of x m m1] b have s:
    "m1 = applyMarks accs (M x) m" "\<forall>mark \<in> set (M x). snd mark < length accs" by simp_all
  have "m' = applyMarks accs (concat (map M xs)) m1
       \<and> (\<forall>mark \<in> set (concat (map M xs)). snd mark < length accs)"
  proof (rule Cons.IH [OF r])
    fix y a b
    assume "y \<in> set xs" "body y a = Inr b"
    then show "b = applyMarks accs (M y) a \<and> (\<forall>mark \<in> set (M y). snd mark < length accs)"
      using Cons.prems(2) [of y a b] by simp
  qed
  with s show ?case by (auto simp: applyMarks_append)
qed

lemma concat_map_concat:
  "concat (map (\<lambda>x. concat (map f (h x))) xs) = concat (map f (concat (map h xs)))"
  by (induction xs) simp_all

lemma concat_singletons_snd:
  "concat (map (\<lambda>k. [F k]) (map snd xs)) = map (\<lambda>entry. F (snd entry)) xs"
  by (induction xs) simp_all

lemma markPrimitive_applyMarks:
  assumes "markPrimitive accs p m = Inr m'"
  shows "m' = applyMarks accs (primitiveMarks p) m
       \<and> (\<forall>mark \<in> set (primitiveMarks p). snd mark < length accs)"
proof -
  from assms obtain m1 where
    a: "(case indices p of None \<Rightarrow> Inr m | Some k \<Rightarrow> markAccessor accs INDEX k m) = Inr m1"
    and b: "forEach (markAccessor accs VERTEX) (map snd (attributes p)) m1 = Inr m'"
    by (auto simp: markPrimitive_def split: sum.splits)
  have i: "m1 = applyMarks accs (case indices p of None \<Rightarrow> [] | Some k \<Rightarrow> [(INDEX, k)]) m
      \<and> (\<forall>mark \<in> set (case indices p of None \<Rightarrow> [] | Some k \<Rightarrow> [(INDEX, k)]).
            snd mark < length accs)"
  proof (cases "indices p")
    case None
    then show ?thesis using a by simp
  next
    case (Some k)
    then show ?thesis using a markAccessor_applyMarks [of accs INDEX k m m1] by simp
  qed
  have v: "m' = applyMarks accs (concat (map (\<lambda>k. [(VERTEX, k)]) (map snd (attributes p)))) m1
      \<and> (\<forall>mark \<in> set (concat (map (\<lambda>k. [(VERTEX, k)]) (map snd (attributes p)))).
            snd mark < length accs)"
    by (rule forEach_applyMarks [OF b]) (auto dest: markAccessor_applyMarks)
  have c: "concat (map (\<lambda>k. [(VERTEX, k)]) (map snd (attributes p)))
      = map (\<lambda>entry. (VERTEX, snd entry)) (attributes p)"
    by (rule concat_singletons_snd)
  from i v show ?thesis unfolding c by (auto simp: primitiveMarks_def applyMarks_append)
qed

lemma markMeshes_applyMarks:
  assumes "markMeshes g m = Inr m'"
  shows "m' = applyMarks (accessors g)
                (concat (map primitiveMarks (concat (map primitives (meshes g))))) m
       \<and> (\<forall>mark \<in> set (concat (map primitiveMarks (concat (map primitives (meshes g))))).
             snd mark < length (accessors g))"
proof -
  have mesh: "b = applyMarks (accessors g) (concat (map primitiveMarks (primitives mesh))) a
      \<and> (\<forall>mark \<in> set (concat (map primitiveMarks (primitives mesh))).
            snd mark < length (accessors g))"
    if "forEach (markPrimitive (accessors g)) (primitives mesh) a = Inr b"
    for mesh :: Mesh and a b
    by (rule forEach_applyMarks [OF that]) (rule markPrimitive_applyMarks)
  have "m' = applyMarks (accessors g)
          (concat (map (\<lambda>mesh. concat (map primitiveMarks (primitives mesh))) (meshes g))) m
       \<and> (\<forall>mark \<in> set (concat (map (\<lambda>mesh. concat (map primitiveMarks (primitives mesh)))
                                (meshes g))).
             snd mark < length (accessors g))"
    by (rule forEach_applyMarks [OF assms [unfolded markMeshes_def]]) (rule mesh)
  moreover have "concat (map (\<lambda>mesh. concat (map primitiveMarks (primitives mesh))) (meshes g))
      = concat (map primitiveMarks (concat (map primitives (meshes g))))"
    by (rule concat_map_concat)
  ultimately show ?thesis by simp
qed

lemma markSkin_applyMarks:
  assumes "markSkin g m = Inr m'"
  shows "m' = applyMarks (accessors g) (map (Pair (STORAGE OR COPY_DST)) (skinAccessors g)) m
       \<and> (\<forall>mark \<in> set (map (Pair (STORAGE OR COPY_DST)) (skinAccessors g)).
             snd mark < length (accessors g))"
  using assms
  by (auto simp: markSkin_def inverseBindAccessor_def skin0_def skinAccessors_def
      applyMarks_def js_index_def Let_def split: option.splits list.splits sum.splits if_splits)

lemma applyMarks_lookup:
  assumes "\<forall>mark \<in> set marks. snd mark < length accs"
  shows "applyMarks accs marks m i =
     (case filter (\<lambda>mark. snd mark < length accs \<and> acc_bufferView (accs ! snd mark) = Some i)
             marks of
        [] \<Rightarrow> m i
      | found \<Rightarrow> Some (fst (last found)))"
  using assms
proof (induction marks arbitrary: m)
  case Nil
  then show ?case by simp
next
  case (Cons mark marks)
  let ?P = "\<lambda>mark. snd mark < length accs \<and> acc_bufferView (accs ! snd mark) = Some i"
  have step: "applyMarks accs (mark # marks) m
      = applyMarks accs marks (markUsage (accs ! snd mark) (fst mark) m)"
    by (simp add: applyMarks_def)
  have ih: "applyMarks accs marks (markUsage (accs ! snd mark) (fst mark) m) i =
     (case filter ?P marks of
        [] \<Rightarrow> markUsage (accs ! snd mark) (fst mark) m i
      | found \<Rightarrow> Some (fst (last found)))"
    by (rule Cons.IH) (use Cons.prems in simp)
  have inr: "snd mark < length accs" using Cons.prems by simp
  show ?case
  proof (cases "acc_bufferView (accs ! snd mark) = Some i")
    case True
    then have "markUsage (accs ! snd mark) (fst mark) m i = Some (fst mark)"
      by (simp add: markUsage_def)
    with True inr show ?thesis
      unfolding step ih by (cases "filter ?P marks") simp_all
  next
    case False
    then have "markUsage (accs ! snd mark) (fst mark) m i = m i"
      by (cases "acc_bufferView (accs ! snd mark)") (auto simp: markUsage_def)
    with False show ?thesis
      unfolding step ih by (cases "filter ?P marks") simp_all
  qed
qed

lemma marked_usageOf:
  assumes "markMeshes g Map.empty = Inr m1" and "markSkin g m1 = Inr m"
  shows "m i = usageOf g i"
proof -
  note a = markMeshes_applyMarks [OF assms(1)]
  note b = markSkin_applyMarks [OF assms(2)]
  have m: "m = applyMarks (accessors g) (assetMarks g) Map.empty"
    using a b by (simp add: assetMarks_def applyMarks_append)
  have r: "\<forall>mark \<in> set (assetMarks g). snd mark < length (accessors g)"
    using a b by (auto simp: assetMarks_def)
  show ?thesis
    unfolding m applyMarks_lookup [OF r] usageOf_def by simp
qed

text \<open>
  C4. When \<open>loadGPUBuffers\<close> returns for an asset with K buffer views, \<open>gpuBuffers\<close>
  holds exactly K handles, the K buffers that this call created, in buffer-view order.
  When a primitive's attribute accessor, a primitive's index accessor or the first skin's
  inverse-bind-matrix accessor names view i, the buffer at index i is a data buffer and
  not the placeholder: it carries the view's name as label, its size is the view's byte
  length rounded up to a multiple of four, its usage is the tag of the last accessor that
  names the view (index, vertex, or storage with copy-destination), it is mapped at
  creation, and its mapped bytes are the view's byte range of the binary payload followed
  by zeros up to the size. Otherwise the buffer is the placeholder: four bytes, labelled
  \<open>empty buffer\<close>, usage copy-destination, not mapped.
\<close>

theorem loadGPUBuffers_dense:
  assumes "loadGPUBuffers grp st = Inr st'"
  shows "length (gpuBuffers st') = length (bufferViews (gltf grp))
       \<and> gpuBuffers st' = [length (dev_buffers st) ..<
                             length (dev_buffers st) + length (bufferViews (gltf grp))]
       \<and> (\<forall>i < length (bufferViews (gltf grp)).
            \<exists>b. js_index (dev_buffers st') (gpuBuffers st' ! i) = Some b
              \<and> (referenced (gltf grp) i \<longrightarrow>
                   (\<exists>wholeArray. bufferData0 grp = Some wholeArray
                      \<and> b \<noteq> emptyBuffer
                      \<and> buf_label b = bv_name (bufferViews (gltf grp) ! i)
                      \<and> buf_size b = (bv_byteLength (bufferViews (gltf grp) ! i) + 3) div 4 * 4
                      \<and> usageOf (gltf grp) i = Some (buf_usage b)
                      \<and> (buf_usage b = INDEX \<or> buf_usage b = VERTEX
                           \<or> buf_usage b = STORAGE OR COPY_DST)
                      \<and> buf_mappedAtCreation b
                      \<and> buf_mappedData b =
                          (case bv_byteOffset (bufferViews (gltf grp) ! i) of
                             None \<Rightarrow> []
                           | Some off \<Rightarrow>
                               take (bv_byteLength (bufferViews (gltf grp) ! i))
                                 (drop off wholeArray))
                          @ replicate
                              (buf_size b
                               - length
                                   (case bv_byteOffset (bufferViews (gltf grp) ! i) of
                                      None \<Rightarrow> []
                                    | Some off \<Rightarrow>
                                        take (bv_byteLength (bufferViews (gltf grp) ! i))
                                          (drop off wholeArray)))
                              0))
              \<and> (\<not> referenced (gltf grp) i \<longrightarrow>
                   usageOf (gltf grp) i = None
                   \<and> b = \<lparr>buf_label = Some ''empty buffer'', buf_size = 4,
                          buf_usage = COPY_DST, buf_mappedAtCreation = False,
                          buf_mappedData = []\<rparr>))"
proof -
  let ?K = "length (bufferViews (gltf grp))"
  let ?n = "length (dev_buffers st)"
  from assms obtain m1 m where
    a: "markMeshes (gltf grp) Map.empty = Inr m1" and
    b: "markSkin (gltf grp) m1 = Inr m" and
    c: "forEach (uploadBufferView grp m) [0 ..< ?K] (st\<lparr>gpuBuffers := []\<rparr>) = Inr st'"
    by (auto simp: loadGPUBuffers_def split: sum.splits)
  note ref = marked_iff_referenced [OF a b]
  note use = marked_usageOf [OF a b]
  have tags: "\<forall>i v. m i = Some v \<longrightarrow> v \<in> usageTags"
    using markSkin_tags [OF b markMeshes_tags [OF a]] .
  from upload_loop_result [OF c] have
    bufs: "dev_buffers st' = dev_buffers st @ map (bufferFor grp m) [0 ..< ?K]" and
    hs: "gpuBuffers st' = [?n ..< ?n + ?K]" and
    payload: "\<forall>i \<in> set [0 ..< ?K]. m i \<noteq> None \<longrightarrow> bufferData0 grp \<noteq> None"
    by simp_all
  have at: "js_index (dev_buffers st') (gpuBuffers st' ! i) = Some (bufferFor grp m i)"
    if "i < ?K" for i
    using that by (simp add: bufs hs js_index_def nth_append)
  have each: "\<exists>b. js_index (dev_buffers st') (gpuBuffers st' ! i) = Some b
              \<and> (referenced (gltf grp) i \<longrightarrow>
                   (\<exists>wholeArray. bufferData0 grp = Some wholeArray
                      \<and> b \<noteq> emptyBuffer
                      \<and> buf_label b = bv_name (bufferViews (gltf grp) ! i)
                      \<and> buf_size b = (bv_byteLength (bufferViews (gltf grp) ! i) + 3) div 4 * 4
                      \<and> usageOf (gltf grp) i = Some (buf_usage b)
                      \<and> (buf_usage b = INDEX \<or> buf_usage b = VERTEX
                           \<or> buf_usage b = STORAGE OR COPY_DST)
                      \<and> buf_mappedAtCreation b
                      \<and> buf_mappedData b =
                          (case bv_byteOffset (bufferViews (gltf grp) ! i) of
                             None \<Rightarrow> []
                           | Some off \<Rightarrow>
                               take (bv_byteLength (bufferViews (gltf grp) ! i))
                                 (drop off wholeArray))
                          @ replicate
                              (buf_size b
                               - length
                                   (case bv_byteOffset (bufferViews (gltf grp) ! i) of
                                      None \<Rightarrow> []
                                    | Some off \<Rightarrow>
                                        take (bv_byteLength (bufferViews (gltf grp) ! i))
                                          (drop off wholeArray)))
                              0))
              \<and> (\<not> referenced (gltf grp) i \<longrightarrow>
                   usageOf (gltf grp) i = None
                   \<and> b = \<lparr>buf_label = Some ''empty buffer'', buf_size = 4,
                          buf_usage = COPY_DST, buf_mappedAtCreation = False,
                          buf_mappedData = []\<rparr>)"
    if i: "i < ?K" for i
  proof (cases "m i")
    case None
    then have "\<not> referenced (gltf grp) i" "usageOf (gltf grp) i = None"
      using ref [of i] use [of i] by simp_all
    moreover have "js_index (dev_buffers st') (gpuBuffers st' ! i) = Some emptyBuffer"
      using None at [OF i] by (simp add: bufferFor_def)
    ultimately show ?thesis by (simp add: emptyBuffer_def)
  next
    case (Some u)
    then have u: "u = INDEX \<or> u = VERTEX \<or> u = STORAGE OR COPY_DST"
      using tags by (auto simp: usageTags_def)
    from Some payload i obtain w where w: "bufferData0 grp = Some w" by auto
    have r: "referenced (gltf grp) i" "usageOf (gltf grp) i = Some u"
      using Some ref [of i] use [of i] by simp_all
    have d: "js_index (dev_buffers st') (gpuBuffers st' ! i) =
        Some (dataBuffer (bufferViews (gltf grp) ! i) u w)"
      using Some w at [OF i] by (simp add: bufferFor_def)
    show ?thesis
      unfolding d using r u w
      by (simp add: dataBuffer_def roundUp4_def subarray_def emptyBuffer_def Let_def)
  qed
  show ?thesis using hs each by simp
qed

theorem loadGPUBuffers_dense_witness:
  "(\<exists>st'. loadGPUBuffers skinnedScene newRenderer = Inr st'
      \<and> referenced (gltf skinnedScene) 0
      \<and> map_option buf_usage (js_index (dev_buffers st') (gpuBuffers st' ! 0)) = Some 136)
   \<and> (\<exists>st'. loadGPUBuffers triangleScene newRenderer = Inr st'
      \<and> gpuBuffers st' = [0, 1, 2]
      \<and> referenced (gltf triangleScene) 0
      \<and> referenced (gltf triangleScene) 1
      \<and> \<not> referenced (gltf triangleScene) 2
      \<and> js_index (dev_buffers st') (gpuBuffers st' ! 0) =
          Some \<lparr>buf_label = None, buf_size = 36, buf_usage = 32,
                buf_mappedAtCreation = True, buf_mappedData = replicate 36 7\<rparr>
      \<and> js_index (dev_buffers st') (gpuBuffers st' ! 1) =
          Some \<lparr>buf_label = None, buf_size = 8, buf_usage = 16,
                buf_mappedAtCreation = True, buf_mappedData = [7, 7, 7, 7, 7, 7, 0, 0]\<rparr>
      \<and> js_index (dev_buffers st') (gpuBuffers st' ! 2) =
          Some \<lparr>buf_label = Some ''empty buffer'', buf_size = 4, buf_usage = 8,
                buf_mappedAtCreation = False, buf_mappedData = []\<rparr>)"
proof -
  have "\<not> isl (loadGPUBuffers skinnedScene newRenderer)" by code_simp
  then obtain s1 where e1: "loadGPUBuffers skinnedScene newRenderer = Inr s1"
    by (cases "loadGPUBuffers skinnedScene newRenderer") auto
  have r1: "referenced (gltf skinnedScene) 0" by code_simp
  have u1: "usageOf (gltf skinnedScene) 0 = Some 136" by code_simp
  have k1: "0 < length (bufferViews (gltf skinnedScene))"
    by (simp add: skinnedScene_def triangleScene_def triangleGltf_def)
  from loadGPUBuffers_dense [OF e1, THEN conjunct2, THEN conjunct2, rule_format, OF k1] r1 u1
  have "map_option buf_usage (js_index (dev_buffers s1) (gpuBuffers s1 ! 0)) = Some 136"
    by auto
  with e1 r1 have skinned: "\<exists>st'. loadGPUBuffers skinnedScene newRenderer = Inr st'
      \<and> referenced (gltf skinnedScene) 0
      \<and> map_option buf_usage (js_index (dev_buffers st') (gpuBuffers st' ! 0)) = Some 136"
    by blast
  have "\<not> isl (loadGPUBuffers triangleScene newRenderer)" by code_simp
  then obtain st' where e: "loadGPUBuffers triangleScene newRenderer = Inr st'"
    by (cases "loadGPUBuffers triangleScene newRenderer") auto
  have r: "referenced (gltf triangleScene) 0" "referenced (gltf triangleScene) 1"
    "\<not> referenced (gltf triangleScene) 2"
    by code_simp+
  have us: "usageOf (gltf triangleScene) 0 = Some 32" "usageOf (gltf triangleScene) 1 = Some 16"
    by code_simp+
  have k: "length (dev_buffers newRenderer) = 0" "length (bufferViews (gltf triangleScene)) = 3"
    by (simp_all add: newRenderer_def triangleScene_def triangleGltf_def)
  have v0: "bufferViews (gltf triangleScene) ! 0 =
      \<lparr>bv_name = None, bv_byteOffset = Some 0, bv_byteLength = 36, bv_byteStride = None\<rparr>"
    and v1: "bufferViews (gltf triangleScene) ! 1 =
      \<lparr>bv_name = None, bv_byteOffset = Some 36, bv_byteLength = 6, bv_byteStride = None\<rparr>"
    and v1': "bufferViews (gltf triangleScene) ! Suc 0 =
      \<lparr>bv_name = None, bv_byteOffset = Some 36, bv_byteLength = 6, bv_byteStride = None\<rparr>"
    and w: "bufferData0 triangleScene = Some (replicate 50 7)"
    by (simp_all add: triangleScene_def triangleGltf_def)
  have p0: "take 36 (drop 0 (replicate 50 (7 :: nat))) = replicate 36 7"
    and p1: "take 6 (drop 36 (replicate 50 (7 :: nat))) @ replicate 2 0 = [7, 7, 7, 7, 7, 7, 0, 0]"
    by code_simp+
  note t = loadGPUBuffers_dense [OF e]
  have u: "[0 ..< 0 + 3] = [0 :: nat, 1, 2]" by code_simp
  from t k have hs: "gpuBuffers st' = [0, 1, 2]"
    by (simp only: u)
  note at = t [THEN conjunct2, THEN conjunct2, rule_format]
  from at [of 0] k r(1) obtain b0 where b0:
    "js_index (dev_buffers st') (gpuBuffers st' ! 0) = Some b0"
    "buf_label b0 = None" "buf_size b0 = 36" "buf_usage b0 = 32" "buf_mappedAtCreation b0"
    "buf_mappedData b0 = replicate 36 7"
    using us(1) p0 by (auto simp: v0 w)
  from at [of 1] k r(2) obtain b1 where b1:
    "js_index (dev_buffers st') (gpuBuffers st' ! 1) = Some b1"
    "buf_label b1 = None" "buf_size b1 = 8" "buf_usage b1 = 16" "buf_mappedAtCreation b1"
    "buf_mappedData b1 = [7, 7, 7, 7, 7, 7, 0, 0]"
    using us(2) p1 by (auto simp: v1 v1' w)
  have d0: "js_index (dev_buffers st') (gpuBuffers st' ! 0) =
          Some \<lparr>buf_label = None, buf_size = 36, buf_usage = 32,
                buf_mappedAtCreation = True, buf_mappedData = replicate 36 7\<rparr>"
    using b0 by (cases b0) simp
  have d1: "js_index (dev_buffers st') (gpuBuffers st' ! 1) =
          Some \<lparr>buf_label = None, buf_size = 8, buf_usage = 16,
                buf_mappedAtCreation = True, buf_mappedData = [7, 7, 7, 7, 7, 7, 0, 0]\<rparr>"
    using b1 by (cases b1) simp
  have d2: "js_index (dev_buffers st') (gpuBuffers st' ! 2) =
          Some \<lparr>buf_label = Some ''empty buffer'', buf_size = 4, buf_usage = 8,
                buf_mappedAtCreation = False, buf_mappedData = []\<rparr>"
    using at [of 2] k r(3) by (auto simp: COPY_DST_def)
  from e hs r d0 d1 d2 have "\<exists>st'. loadGPUBuffers triangleScene newRenderer = Inr st'
      \<and> gpuBuffers st' = [0, 1, 2]
      \<and> referenced (gltf triangleScene) 0
      \<and> referenced (gltf triangleScene) 1
      \<and> \<not> referenced (gltf triangleScene) 2
      \<and> js_index (dev_buffers st') (gpuBuffers st' ! 0) =
          Some \<lparr>buf_label = None, buf_size = 36, buf_usage = 32,
                buf_mappedAtCreation = True, buf_mappedData = replicate 36 7\<rparr>
      \<and> js_index (dev_buffers st') (gpuBuffers st' ! 1) =
          Some \<lparr>buf_label = None, buf_size = 8, buf_usage = 16,
                buf_mappedAtCreation = True, buf_mappedData = [7, 7, 7, 7, 7, 7, 0, 0]\<rparr>
      \<and> js_index (dev_buffers st') (gpuBuffers st' ! 2) =
          Some \<lparr>buf_label = Some ''empty buffer'', buf_size = 4, buf_usage = 8,
                buf_mappedAtCreation = False, buf_mappedData = []\<rparr>"
    by blast
  with skinned show ?thesis by blast
qed

section \<open>Assets without a skin\<close>

text \<open>
  C10. For an asset without a skin list, reading \<open>skins[0]\<close> would raise the
  \<open>TypeError\<close> tagged \<open>gltf.skins\<close>. Neither \<open>loadGPUBuffers\<close> nor
  \<open>initFrameBindGroup\<close> ends with it, and \<open>initConstantBindGroup\<close> ends with no error
  at all: it writes has-skin 0 and joint count 0 (and two zero fields) to the joint
  metadata buffer that it has just created.
\<close>

theorem no_skin_never_reads_skin0:
  assumes "skins (gltf grp) = None"
  shows "loadGPUBuffers grp st \<noteq> Inl (TypeError ''gltf.skins'')
       \<and> initFrameBindGroup grp st \<noteq> Inl (TypeError ''gltf.skins'')
       \<and> (\<exists>st'. initConstantBindGroup grp st = Inr st'
            \<and> jointInfoBuffer st' = Some (length (dev_buffers st))
            \<and> dev_writes st' = dev_writes st @
                 [\<lparr>wr_buffer = Some (length (dev_buffers st)), wr_offset = 0,
                   wr_data = Numbers [0, 0, 0, 0]\<rparr>])"
proof (intro conjI)
  show "loadGPUBuffers grp st \<noteq> Inl (TypeError ''gltf.skins'')"
    using assms
    by (auto simp: loadGPUBuffers_def markSkin_def split: sum.splits
        dest!: markMeshes_error forEach_error_source uploadBufferView_error)
  show "initFrameBindGroup grp st \<noteq> Inl (TypeError ''gltf.skins'')"
    using assms
    by (auto simp: initFrameBindGroup_def initJointTransformBuffer_def Let_def createBuffer_def
        createBindGroup_def split: sum.splits prod.splits dest!: updateInstanceBuffer_error)
  show "\<exists>st'. initConstantBindGroup grp st = Inr st'
            \<and> jointInfoBuffer st' = Some (length (dev_buffers st))
            \<and> dev_writes st' = dev_writes st @
                 [\<lparr>wr_buffer = Some (length (dev_buffers st)), wr_offset = 0,
                   wr_data = Numbers [0, 0, 0, 0]\<rparr>]"
    using assms
    by (simp add: initConstantBindGroup_def createBuffer_def createBindGroup_def writeBuffer_def)
qed

theorem no_skin_never_reads_skin0_witness:
  "skins (gltf triangleScene) = None
   \<and> loadGPUBuffers triangleScene newRenderer \<noteq> Inl (TypeError ''gltf.skins'')
   \<and> initFrameBindGroup triangleScene newRenderer \<noteq> Inl (TypeError ''gltf.skins'')
   \<and> (\<exists>st'. initConstantBindGroup triangleScene newRenderer = Inr st'
        \<and> jointInfoBuffer st' = Some 0
        \<and> dev_writes st' =
             [\<lparr>wr_buffer = Some 0, wr_offset = 0, wr_data = Numbers [0, 0, 0, 0]\<rparr>])"
proof -
  have h: "skins (gltf triangleScene) = None"
    by (simp add: triangleScene_def triangleGltf_def)
  have k: "dev_buffers newRenderer = []" "dev_writes newRenderer = []"
    by (simp_all add: newRenderer_def)
  from no_skin_never_reads_skin0 [OF h, of newRenderer] h k show ?thesis by simp
qed

section \<open>Properties of the pipeline builder\<close>

lemma pushed_Nil [simp]: "pushed g gb [] vs = vs"
  by (simp add: pushed_def lastCount_def)

lemma pushed_Cons: "pushed g gb (slot # slots) vs = pushed g gb slots (pushed g gb [slot] vs)"
  by (cases slots) (simp_all add: pushed_def lastCount_def)

lemma pushed_append: "pushed g gb (xs @ ys) vs = pushed g gb ys (pushed g gb xs vs)"
proof (induction xs arbitrary: vs)
  case Nil
  then show ?case by simp
next
  case (Cons x xs)
  show ?case
    using Cons.IH [of "pushed g gb [x] vs"] pushed_Cons [of g gb x "xs @ ys" vs]
      pushed_Cons [of g gb x xs vs]
    by simp
qed

lemma pushAttribute_pushed:
  assumes "pushAttribute g gb loc accessor vs = Inr vs'"
    and "js_index (accessors g) k = Some accessor"
  shows "vs' = pushed g gb [(loc, k)] vs"
  using assms
  by (cases vs)
    (auto simp: pushAttribute_def pushed_def layoutEntry_def bufferEntry_def lastCount_def
      js_index_def split: option.splits if_splits)

lemma requiredAttribute_pushed:
  assumes "requiredAttribute g gb attrs entry vs = Inr vs'"
  shows "vs' = pushed g gb
           (List.map_filter
              (\<lambda>(atrrNameInShader, location).
                 map_option (Pair (Location location)) (findAttribute atrrNameInShader attrs))
              [entry]) vs"
  using assms
  by (cases entry)
    (auto simp: requiredAttribute_def List.map_filter_def
      split: option.splits dest: pushAttribute_pushed)

lemma otherAttribute_pushed:
  assumes "otherAttribute g gb entry vs = Inr vs'"
  shows "vs' = pushed g gb
           (List.map_filter
              (\<lambda>(attribName, accessorIndex).
                 map_option (\<lambda>shaderLocation. (shaderLocation, accessorIndex))
                   (ShaderLocations_property attribName))
              [entry]) vs"
  using assms
  by (cases entry)
    (auto simp: otherAttribute_def List.map_filter_def
      split: option.splits dest: pushAttribute_pushed)

lemma forEach_pushed:
  assumes "forEach body xs vs = Inr vs'"
    and "\<And>x a b. body x a = Inr b \<Longrightarrow> b = pushed g gb (List.map_filter f [x]) a"
  shows "vs' = pushed g gb (List.map_filter f xs) vs"
  using assms(1)
proof (induction xs arbitrary: vs)
  case Nil
  then show ?case by (simp add: List.map_filter_def)
next
  case (Cons x xs)
  from Cons.prems obtain v1 where b: "body x vs = Inr v1" and r: "forEach body xs v1 = Inr vs'"
    by (auto split: sum.splits)
  have "List.map_filter f (x # xs) = List.map_filter f [x] @ List.map_filter f xs"
    by (simp add: List.map_filter_def)
  then show ?case using Cons.IH [OF r] assms(2) [OF b] by (simp add: pushed_append)
qed

lemma vertexState_pushed:
  assumes "vertexState g gb primitive = Inr vs"
  shows "vs = pushed g gb (processedSlots primitive) ([], [], 0)"
proof -
  from assms obtain v1 where
    a: "forEach (requiredAttribute g gb (attributes primitive)) ShaderLocations ([], [], 0) = Inr v1"
    and b: "forEach (otherAttribute g gb) (attributes primitive) v1 = Inr vs"
    by (auto simp: vertexState_def split: sum.splits)
  have "v1 = pushed g gb (requiredSlots primitive) ([], [], 0)"
    unfolding requiredSlots_def by (rule forEach_pushed [OF a]) (rule requiredAttribute_pushed)
  moreover have "vs = pushed g gb (inheritedSlots primitive) v1"
    unfolding inheritedSlots_def by (rule forEach_pushed [OF b]) (rule otherAttribute_pushed)
  ultimately show ?thesis by (simp add: processedSlots_def pushed_append)
qed

lemma setupPrimitive_buffers_follow_layout:
  assumes "setupPrimitive grp key primitive st = Inr st'"
  shows "\<exists>gpuPrimitive desc. primitiveGpuData st' key = Some gpuPrimitive
     \<and> js_index (dev_pipelines st') (pipeline gpuPrimitive) = Some desc
     \<and> buffers gpuPrimitive =
         map (bufferEntry (gltf grp) (gpuBuffers st)) (processedSlots primitive)
     \<and> vertex_buffers desc = map (layoutEntry (gltf grp)) (processedSlots primitive)"
proof -
  from assms obtain vs where v: "vertexState (gltf grp) (gpuBuffers st) primitive = Inr vs"
    by (auto simp: setupPrimitive_def split: sum.splits)
  note p = vertexState_pushed [OF v]
  show ?thesis
    using assms
    by (auto simp: setupPrimitive_def v p pushed_def createRenderPipeline_def js_index_def
        Let_def split: option.splits if_splits)
qed

lemma processedSlots_ordinary:
  assumes "\<forall>entry \<in> set (attributes primitive). ShaderLocations_property (fst entry) = None"
  shows "processedSlots primitive = requiredSlots primitive"
proof -
  have "List.map_filter
       (\<lambda>(attribName, accessorIndex).
          map_option (\<lambda>shaderLocation. (shaderLocation, accessorIndex))
            (ShaderLocations_property attribName)) xs = []"
    if "\<forall>entry \<in> set xs. ShaderLocations_property (fst entry) = None" for xs :: "(string \<times> nat) list"
    using that by (induction xs) (auto simp: List.map_filter_def)
  with assms show ?thesis by (simp add: processedSlots_def inheritedSlots_def)
qed

text \<open>
  \<open>setupPrimitive\<close> returns when every attribute accessor and the index accessor of
  the primitive exist and every processed attribute's accessor names an existing buffer
  view.
\<close>

lemma in_map_filter:
  "x \<in> set xs \<Longrightarrow> f x = Some y \<Longrightarrow> y \<in> set (List.map_filter f xs)"
  by (induction xs) (auto split: option.splits)

lemma findAttribute_Some:
  "findAttribute name attrs = Some k \<Longrightarrow> (name, k) \<in> set attrs"
  by (induction attrs) (auto split: if_splits)

lemma pushAttribute_returns:
  "bufferViewOf g accessor \<noteq> None \<Longrightarrow> \<exists>vs'. pushAttribute g gb loc accessor vs = Inr vs'"
  by (cases vs) (auto simp: pushAttribute_def)

lemma vertexState_returns:
  assumes "\<forall>entry \<in> set (attributes p). snd entry < length (accessors g)"
    and "\<forall>slot \<in> set (processedSlots p). bufferViewOf g (accessors g ! snd slot) \<noteq> None"
  shows "\<exists>vs. vertexState g gb p = Inr vs"
proof -
  have req: "\<exists>b. requiredAttribute g gb (attributes p) entry a = Inr b \<and> True"
    if e: "entry \<in> set ShaderLocations" for entry a
  proof (cases "findAttribute (fst entry) (attributes p)")
    case None
    then show ?thesis by (cases entry; cases a) (auto simp: requiredAttribute_def)
  next
    case (Some k)
    then have k: "k < length (accessors g)"
      using assms(1) findAttribute_Some [of "fst entry" "attributes p" k] by force
    have "(Location (snd entry), k) \<in> set (requiredSlots p)"
      unfolding requiredSlots_def
      by (rule in_map_filter [OF e]) (use Some in \<open>cases entry, simp\<close>)
    then have "bufferViewOf g (accessors g ! k) \<noteq> None"
      using assms(2) by (force simp: processedSlots_def)
    from pushAttribute_returns [OF this] show ?thesis
      using Some k by (cases entry; cases a) (auto simp: requiredAttribute_def js_index_def)
  qed
  have oth: "\<exists>b. otherAttribute g gb entry a = Inr b \<and> True"
    if e: "entry \<in> set (attributes p)" for entry a
  proof (cases "ShaderLocations_property (fst entry)")
    case None
    then show ?thesis using assms(1) e
      by (cases entry; cases a) (force simp: otherAttribute_def js_index_def)
  next
    case (Some loc)
    have k: "snd entry < length (accessors g)" using assms(1) e by simp
    have "(loc, snd entry) \<in> set (inheritedSlots p)"
      unfolding inheritedSlots_def
      by (rule in_map_filter [OF e]) (use Some in \<open>cases entry, simp\<close>)
    then have "bufferViewOf g (accessors g ! snd entry) \<noteq> None"
      using assms(2) by (force simp: processedSlots_def)
    from pushAttribute_returns [OF this] show ?thesis
      using Some k by (cases entry; cases a) (auto simp: otherAttribute_def js_index_def)
  qed
  have "\<exists>v1. forEach (requiredAttribute g gb (attributes p)) ShaderLocations ([], [], 0) = Inr v1
          \<and> True"
    by (rule forEach_returns [where P = "\<lambda>_. True"]) (use req in auto)
  then obtain v1 where v1:
    "forEach (requiredAttribute g gb (attributes p)) ShaderLocations ([], [], 0) = Inr v1"
    by blast
  have "\<exists>vs. forEach (otherAttribute g gb) (attributes p) v1 = Inr vs \<and> True"
    by (rule forEach_returns [where P = "\<lambda>_. True"]) (use oth in auto)
  then show ?thesis using v1 by (simp add: vertexState_def)
qed

lemma setupPrimitive_returns:
  assumes "\<forall>entry \<in> set (attributes p). snd entry < length (accessors (gltf grp))"
    and "\<forall>slot \<in> set (processedSlots p).
           bufferViewOf (gltf grp) (accessors (gltf grp) ! snd slot) \<noteq> None"
    and "\<forall>k. indices p = Some k \<longrightarrow> k < length (accessors (gltf grp))"
  shows "\<exists>st'. setupPrimitive grp key p st = Inr st'"
proof -
  from vertexState_returns [OF assms(1,2)] obtain vs where
    "vertexState (gltf grp) (gpuBuffers st) p = Inr vs" by blast
  then show ?thesis
    using assms(3)
    by (cases vs)
      (auto simp: setupPrimitive_def createRenderPipeline_def js_index_def Let_def
        split: option.splits)
qed

text \<open>
  C3. The list of (GPU buffer, offset) pairs recorded for a primitive is meant to have
  one entry for each shader attribute that the primitive has, in shader-slot order. The
  list and the pipeline's layout list do grow together, entry by entry. But the second
  pass of \<open>setupPrimitive\<close> reads the shader location as a property of the
  \<open>ShaderLocations\<close> map object, so an attribute named \<open>size\<close> gets an entry of its
  own, at location 4: the primitive with positions and \<open>size\<close> has one shader
  attribute and two recorded buffers.
\<close>

theorem setupPrimitive_size_attribute_extra_entry:
  "(case init 640 480 sizeScene True newRenderer of
      Inl e \<Rightarrow> None
    | Inr st' \<Rightarrow>
        Some (map_option (\<lambda>p. length (buffers p)) (primitiveGpuData st' (0, 0)),
              map (\<lambda>d. map (\<lambda>l. map va_shaderLocation (vb_attributes l)) (vertex_buffers d))
                (dev_pipelines st')))
     = Some (Some 2, [[[Location 0], [Location 4]]])
   \<and> requiredSlots sizePrimitive = [(Location 0, 0)]"
  by code_simp

text \<open>
  C8. When \<open>setupPrimitive\<close> returns, the stored draw count of a primitive without
  indices is the element count of the last attribute accessor that the two passes
  processed (zero when they processed none); the stored draw count of a primitive with
  indices is the element count of its index accessor.
\<close>

theorem setupPrimitive_drawCount:
  assumes "setupPrimitive grp key primitive st = Inr st'"
  shows "\<exists>gpuPrimitive. primitiveGpuData st' key = Some gpuPrimitive
     \<and> (case indices primitive of
          Some k \<Rightarrow> k < length (accessors (gltf grp))
                     \<and> drawCount gpuPrimitive = acc_count (accessors (gltf grp) ! k)
        | None \<Rightarrow> drawCount gpuPrimitive = lastCount (gltf grp) 0 (processedSlots primitive))"
proof -
  from assms obtain vs where v: "vertexState (gltf grp) (gpuBuffers st) primitive = Inr vs"
    by (auto simp: setupPrimitive_def split: sum.splits)
  note p = vertexState_pushed [OF v]
  show ?thesis
    using assms
    by (auto simp: setupPrimitive_def v p pushed_def createRenderPipeline_def js_index_def
        Let_def split: option.splits if_splits)
qed

theorem setupPrimitive_drawCount_witness:
  "(\<exists>st' p. setupPrimitive quadScene (0, 0)
               \<lparr>attributes = [(''POSITION'', 0)], indices = Some 1, mode = Some 4\<rparr> newRenderer
             = Inr st'
      \<and> primitiveGpuData st' (0, 0) = Some p \<and> drawCount p = 6)
   \<and> (\<exists>st' p. setupPrimitive quadScene (0, 1)
               \<lparr>attributes = [(''POSITION'', 0)], indices = None, mode = Some 4\<rparr> newRenderer
             = Inr st'
      \<and> primitiveGpuData st' (0, 1) = Some p \<and> drawCount p = 4)"
proof -
  let ?indexed = "\<lparr>attributes = [(''POSITION'', 0)], indices = Some 1, mode = Some 4\<rparr>"
  let ?plain = "\<lparr>attributes = [(''POSITION'', 0)], indices = None, mode = Some 4\<rparr>"
  have "\<not> isl (setupPrimitive quadScene (0, 0) ?indexed newRenderer)" by code_simp
  then obtain s1 where s1: "setupPrimitive quadScene (0, 0) ?indexed newRenderer = Inr s1"
    by (cases "setupPrimitive quadScene (0, 0) ?indexed newRenderer") auto
  have "\<not> isl (setupPrimitive quadScene (0, 1) ?plain newRenderer)" by code_simp
  then obtain s2 where s2: "setupPrimitive quadScene (0, 1) ?plain newRenderer = Inr s2"
    by (cases "setupPrimitive quadScene (0, 1) ?plain newRenderer") auto
  have c1: "acc_count (accessors (gltf quadScene) ! 1) = 6" by code_simp
  have c2: "lastCount (gltf quadScene) 0 (processedSlots ?plain) = 4" by code_simp
  from setupPrimitive_drawCount [OF s1] c1
  obtain p1 where "primitiveGpuData s1 (0, 0) = Some p1" "drawCount p1 = 6" by auto
  moreover from setupPrimitive_drawCount [OF s2] c2
  obtain p2 where "primitiveGpuData s2 (0, 1) = Some p2" "drawCount p2 = 4" by auto
  ultimately show ?thesis using s1 s2 by blast
qed

section \<open>Topology modes without a GPU equivalent\<close>

lemma vertexState_mode [simp]:
  "vertexState g gb (primitive\<lparr>mode := m\<rparr>) = vertexState g gb primitive"
  by (simp add: vertexState_def split: sum.splits)

text \<open>
  C2, as the claim states it: initialization of a scene with a triangle-fan primitive
  aborts before any pipeline is created. It does not: initialization returns, and it has
  created one pipeline, whose topology is undefined.
\<close>

theorem triangle_fan_initializes_counterexample:
  "(case initializeWebGPUAndGLTF fanScene newRenderer of
      Inl e \<Rightarrow> None
    | Inr st' \<Rightarrow> Some (map topology (dev_pipelines st'))) = Some [None]"
  by code_simp

text \<open>
  C2, amended. For a primitive whose mode is line-loop or triangle-fan,
  \<open>gpuPrimitiveTopologyForMode\<close> returns undefined and raises nothing, and
  \<open>setupPrimitive\<close> does not test the result: it fails exactly when it fails for the
  same primitive as a triangle list, and when it returns it has created one pipeline,
  whose topology is undefined.
\<close>

theorem setupPrimitive_unsupported_topology:
  assumes "mode primitive = Some GL_LINES_LOOP \<or> mode primitive = Some GL_TRIANGLE_FAN"
  shows "gpuPrimitiveTopologyForMode (mode primitive) = None
       \<and> isl (setupPrimitive grp key primitive st)
           = isl (setupPrimitive grp key (primitive\<lparr>mode := Some GL_TRIANGLES\<rparr>) st)
       \<and> (\<forall>st'. setupPrimitive grp key primitive st = Inr st' \<longrightarrow>
             (\<exists>bufferLayout. dev_pipelines st' = dev_pipelines st @
                 [\<lparr>vertex_buffers = bufferLayout, topology = None\<rparr>]))"
proof -
  have t: "gpuPrimitiveTopologyForMode (mode primitive) = None"
    using assms by (auto simp: gpuPrimitiveTopologyForMode_def GL_defs)
  have i: "isl (setupPrimitive grp key primitive st)
           = isl (setupPrimitive grp key (primitive\<lparr>mode := Some GL_TRIANGLES\<rparr>) st)"
    by (auto simp: setupPrimitive_def createRenderPipeline_def Let_def
        split: sum.splits option.splits)
  have p: "\<exists>bufferLayout. dev_pipelines st' = dev_pipelines st @
                 [\<lparr>vertex_buffers = bufferLayout, topology = None\<rparr>]"
    if "setupPrimitive grp key primitive st = Inr st'" for st'
    using that t
    by (auto simp: setupPrimitive_def createRenderPipeline_def Let_def
        split: sum.splits option.splits)
  from t i p show ?thesis by blast
qed

theorem setupPrimitive_unsupported_topology_witness:
  "mode fanPrimitive = Some GL_TRIANGLE_FAN
   \<and> gpuPrimitiveTopologyForMode (mode fanPrimitive) = None
   \<and> \<not> isl (setupPrimitive fanScene (0, 0) fanPrimitive newRenderer)
   \<and> (\<exists>bufferLayout.
         dev_pipelines (projr (setupPrimitive fanScene (0, 0) fanPrimitive newRenderer))
           = [\<lparr>vertex_buffers = bufferLayout, topology = None\<rparr>])"
proof -
  have m: "mode fanPrimitive = Some GL_TRIANGLE_FAN"
    by (simp add: fanPrimitive_def GL_TRIANGLE_FAN_def)
  then have h: "mode fanPrimitive = Some GL_LINES_LOOP \<or> mode fanPrimitive = Some GL_TRIANGLE_FAN"
    by simp
  have ok: "\<not> isl (setupPrimitive fanScene (0, 0) fanPrimitive newRenderer)" by code_simp
  then obtain st' where e: "setupPrimitive fanScene (0, 0) fanPrimitive newRenderer = Inr st'"
    by (cases "setupPrimitive fanScene (0, 0) fanPrimitive newRenderer") auto
  have k: "dev_pipelines newRenderer = []" by (simp add: newRenderer_def)
  from setupPrimitive_unsupported_topology [OF h, of fanScene "(0, 0)" newRenderer] m ok e k
  show ?thesis by auto
qed

section \<open>Properties of the frame renderer\<close>

lemma forEach_draws:
  assumes "forEach body xs cmds = Inr cmds'"
    and "\<And>x a b. x \<in> set xs \<Longrightarrow> body x a = Inr b \<Longrightarrow> filter isDraw b = filter isDraw a @ D x"
  shows "filter isDraw cmds' = filter isDraw cmds @ concat (map D xs)"
  using assms
proof (induction xs arbitrary: cmds)
  case Nil
  then show ?case by simp
next
  case (Cons x xs)
  from Cons.prems(1) obtain c1 where b: "body x cmds = Inr c1" and r: "forEach body xs c1 = Inr cmds'"
    by (auto split: sum.splits)
  have d1: "filter isDraw c1 = filter isDraw cmds @ D x" using Cons.prems(2) [of x cmds c1] b by simp
  have "filter isDraw cmds' = filter isDraw c1 @ concat (map D xs)"
    by (rule Cons.IH [OF r]) (use Cons.prems(2) in auto)
  with d1 show ?case by simp
qed

lemma forEach_all:
  assumes "forEach body xs s = Inr s'"
    and "\<And>x a b. x \<in> set xs \<Longrightarrow> body x a = Inr b \<Longrightarrow> Q x"
  shows "\<forall>x \<in> set xs. Q x"
  using assms
  by (induction xs arbitrary: s) (auto split: sum.splits)

lemma filter_isDraw_SetVertexBuffer [simp]:
  "filter isDraw (map (\<lambda>(i, bufferInfo). SetVertexBuffer i (f bufferInfo) (h bufferInfo)) xs) = []"
  by (induction xs) auto

lemma drawPrimitive_draws:
  assumes "drawPrimitive grp st m entry cmds = Inr cmds'"
  shows "filter isDraw cmds' =
           filter isDraw cmds @ [expectedDraw grp (the (primitiveGpuData st (m, fst entry)))]
         \<and> primitiveGpuData st (m, fst entry) \<noteq> None"
  using assms
  by (cases entry) (auto simp: drawPrimitive_def expectedDraw_def split: option.splits)

lemma map_enumerate_fst:
  "map (\<lambda>entry. f (fst entry)) (enumerate n xs) = map f [n ..< n + length xs]"
  by (simp add: enumerate_eq_zip map_fst_zip_take flip: map_map [of f fst, unfolded comp_def])

lemma drawNode_draws:
  assumes "drawNode grp st entry cmds = Inr cmds'"
  shows "filter isDraw cmds' = filter isDraw cmds @ nodeDraws grp st (fst entry)
         \<and> nodeDrawable grp st (fst entry)"
proof -
  obtain node bindGroup where entry: "entry = (node, bindGroup)" by (cases entry)
  from assms entry obtain n m mesh where
    n: "js_index (nodes (gltf grp)) node = Some n" and
    m: "node_mesh n = Some m" and
    mesh: "js_index (meshes (gltf grp)) m = Some mesh" and
    loop: "forEach (drawPrimitive grp st m) (enumerate 0 (primitives mesh))
             (cmds @ [SetBindGroup 2 (Some bindGroup)]) = Inr cmds'"
    by (auto simp: drawNode_def split: option.splits)
  from n m mesh have ids: "node < length (nodes (gltf grp))" "meshOfNode grp node = m"
    "m < length (meshes (gltf grp))" "meshes (gltf grp) ! m = mesh"
    "node_mesh (nodes (gltf grp) ! node) = Some m"
    by (auto simp: js_index_def meshOfNode_def split: if_splits)
  have "filter isDraw cmds' = filter isDraw (cmds @ [SetBindGroup 2 (Some bindGroup)])
      @ concat (map (\<lambda>entry. [expectedDraw grp (the (primitiveGpuData st (m, fst entry)))])
                  (enumerate 0 (primitives mesh)))"
    by (rule forEach_draws [OF loop]) (simp add: drawPrimitive_draws)
  then have draws: "filter isDraw cmds' = filter isDraw cmds @ nodeDraws grp st node"
    using map_enumerate_fst [of "\<lambda>j. expectedDraw grp (the (primitiveGpuData st (m, j)))" 0
        "primitives mesh"]
    by (simp add: nodeDraws_def ids concat_map_singleton)
  have all: "\<forall>entry \<in> set (enumerate 0 (primitives mesh)).
      primitiveGpuData st (m, fst entry) \<noteq> None"
    by (rule forEach_all [OF loop]) (simp add: drawPrimitive_draws)
  have "\<forall>j < length (primitives mesh). primitiveGpuData st (m, j) \<noteq> None"
  proof (intro allI impI)
    fix j
    assume "j < length (primitives mesh)"
    then have "(j, primitives mesh ! j) \<in> set (enumerate 0 (primitives mesh))"
      by (simp add: in_set_enumerate_eq)
    with all show "primitiveGpuData st (m, j) \<noteq> None" by force
  qed
  with ids draws entry show ?thesis by (simp add: nodeDrawable_def)
qed

text \<open>\<open>renderGLTF\<close> returns a frame when every registered node is drawable.\<close>

lemma renderGLTF_returns:
  assumes "\<forall>entry \<in> set (nodeGpuData st). nodeDrawable grp st (fst entry)"
  shows "\<exists>fr. renderGLTF grp st = Inr fr"
proof -
  have prim: "\<exists>b. drawPrimitive grp st m entry a = Inr b"
    if "primitiveGpuData st (m, fst entry) \<noteq> None" for m entry a
    using that by (cases entry) (auto simp: drawPrimitive_def)
  have node: "\<exists>b. drawNode grp st entry a = Inr b \<and> True"
    if e: "entry \<in> set (nodeGpuData st)" for entry a
  proof -
    obtain node bindGroup where entry: "entry = (node, bindGroup)" by (cases entry)
    from assms e entry have d: "nodeDrawable grp st node" by auto
    then obtain m where m: "node_mesh (nodes (gltf grp) ! node) = Some m"
      by (auto simp: nodeDrawable_def)
    with d have ids: "node < length (nodes (gltf grp))" "m < length (meshes (gltf grp))"
      "\<forall>j < length (primitives (meshes (gltf grp) ! m)). primitiveGpuData st (m, j) \<noteq> None"
      by (auto simp: nodeDrawable_def meshOfNode_def)
    have "\<exists>s'. forEach (drawPrimitive grp st m) (enumerate 0 (primitives (meshes (gltf grp) ! m)))
             (a @ [SetBindGroup 2 (Some bindGroup)]) = Inr s' \<and> True"
      by (rule forEach_returns [where P = "\<lambda>_. True"])
        (use ids(3) prim in \<open>auto simp: in_set_enumerate_eq\<close>)
    then show ?thesis
      using ids m by (simp add: drawNode_def entry js_index_def)
  qed
  have "\<exists>s'. forEach (drawNode grp st) (nodeGpuData st)
             [SetBindGroup 0 (constantBindGroup st), SetBindGroup 1 (frameBindGroup st)] = Inr s'
           \<and> True"
    by (rule forEach_returns [where P = "\<lambda>_. True"]) (use node in auto)
  then show ?thesis by (auto simp: renderGLTF_def)
qed

text \<open>
  C9. When \<open>renderGLTF\<close> returns a frame, the draw commands of the frame are, for each
  node registered in \<open>nodeGpuData\<close> (the mesh-bearing nodes) in order and for each
  primitive of the node's mesh in order, exactly one draw: an indexed draw when the
  primitive's stored GPU state has an index buffer and a non-indexed draw otherwise, with
  the stored draw count and with the scene's instance count.
\<close>

theorem renderGLTF_draws:
  assumes "renderGLTF grp st = Inr fr"
  shows "filter isDraw (commands fr) =
           concat (map (\<lambda>entry. nodeDraws grp st (fst entry)) (nodeGpuData st))
       \<and> (\<forall>entry \<in> set (nodeGpuData st). nodeDrawable grp st (fst entry))"
proof -
  from assms obtain cmds where
    loop: "forEach (drawNode grp st) (nodeGpuData st)
             [SetBindGroup 0 (constantBindGroup st), SetBindGroup 1 (frameBindGroup st)] = Inr cmds"
    and fr: "commands fr = cmds
                 @ [SetViewport 0 0 (canvas_width st) (canvas_height st) 0 1,
                    SetScissorRect 0 0 (canvas_width st) (canvas_height st)]"
    by (auto simp: renderGLTF_def split: sum.splits)
  have "filter isDraw cmds =
      filter isDraw [SetBindGroup 0 (constantBindGroup st), SetBindGroup 1 (frameBindGroup st)]
      @ concat (map (\<lambda>entry. nodeDraws grp st (fst entry)) (nodeGpuData st))"
    by (rule forEach_draws [OF loop]) (simp add: drawNode_draws)
  moreover have "\<forall>entry \<in> set (nodeGpuData st). nodeDrawable grp st (fst entry)"
    by (rule forEach_all [OF loop]) (simp add: drawNode_draws)
  ultimately show ?thesis by (simp add: fr)
qed

theorem renderGLTF_draws_witness:
  "\<exists>st fr. init 640 480 triangleScene True newRenderer = Inr st
     \<and> renderGLTF triangleScene st = Inr fr
     \<and> filter isDraw (commands fr) = [DrawIndexed 3 2 0 0 0, Draw 3 2 0 0]
     \<and> map fst (nodeGpuData st) = [0]
     \<and> nodeDrawable triangleScene st 0"
proof -
  have ev: "case init 640 480 triangleScene True newRenderer of
      Inl e \<Rightarrow> False
    | Inr st \<Rightarrow> \<not> isl (renderGLTF triangleScene st)
        \<and> concat (map (\<lambda>entry. nodeDraws triangleScene st (fst entry)) (nodeGpuData st))
            = [DrawIndexed 3 2 0 0 0, Draw 3 2 0 0]
        \<and> map fst (nodeGpuData st) = [0]"
    by code_simp
  then obtain st where i: "init 640 480 triangleScene True newRenderer = Inr st"
    and r: "\<not> isl (renderGLTF triangleScene st)"
    and c: "concat (map (\<lambda>entry. nodeDraws triangleScene st (fst entry)) (nodeGpuData st))
            = [DrawIndexed 3 2 0 0 0, Draw 3 2 0 0]"
    and n: "map fst (nodeGpuData st) = [0]"
    by (cases "init 640 480 triangleScene True newRenderer") auto
  from r obtain fr where f: "renderGLTF triangleScene st = Inr fr"
    by (cases "renderGLTF triangleScene st") auto
  from n have "0 \<in> fst ` set (nodeGpuData st)" by (metis list.set_intros(1) set_map)
  with renderGLTF_draws [OF f] c have d:
    "filter isDraw (commands fr) = [DrawIndexed 3 2 0 0 0, Draw 3 2 0 0]"
    "nodeDrawable triangleScene st 0"
    by auto
  show ?thesis
    by (rule exI [of _ st], rule exI [of _ fr]) (simp only: i f n d simp_thms)
qed

section \<open>From initialization to the first frame\<close>

text \<open>
  After \<open>init\<close> has returned, the nodes registered in \<open>nodeGpuData\<close> are the
  mesh-bearing nodes in node order, and every primitive of every mesh has stored GPU
  state. If moreover every mesh-bearing node names an existing mesh, \<open>renderGLTF\<close>
  returns a frame.
\<close>

lemma mapSet_fresh: "k \<notin> fst ` set xs \<Longrightarrow> mapSet k v xs = xs @ [(k, v)]"
  by (induction xs) auto

lemma setupMeshNodeBindGroup_nodeGpuData:
  "nodeGpuData (setupMeshNodeBindGroup grp i st) =
     mapSet i (length (dev_bindGroups st)) (nodeGpuData st)"
  by (simp add: setupMeshNodeBindGroup_def createBuffer_def createBindGroup_def writeBuffer_def
      Let_def)

lemma setupMeshNodeBindGroup_primitiveGpuData:
  "primitiveGpuData (setupMeshNodeBindGroup grp i st) = primitiveGpuData st"
  by (simp add: setupMeshNodeBindGroup_def createBuffer_def createBindGroup_def writeBuffer_def
      Let_def)

lemma initNodeBindGroup_fold:
  assumes "\<forall>k \<in> fst ` set (nodeGpuData st). k < n"
  shows "map fst (nodeGpuData
            (fold (\<lambda>(i, node). if node_mesh node \<noteq> None then setupMeshNodeBindGroup grp i else id)
               (enumerate n ns) st))
         = map fst (nodeGpuData st)
           @ map fst (filter (\<lambda>(i, node). node_mesh node \<noteq> None) (enumerate n ns))"
  using assms
proof (induction ns arbitrary: n st)
  case Nil
  then show ?case by simp
next
  case (Cons x ns)
  show ?case
  proof (cases "node_mesh x")
    case None
    have "\<forall>k \<in> fst ` set (nodeGpuData st). k < Suc n" using Cons.prems by auto
    from Cons.IH [OF this] None show ?thesis by simp
  next
    case (Some m)
    let ?st1 = "setupMeshNodeBindGroup grp n st"
    have fresh: "n \<notin> fst ` set (nodeGpuData st)" using Cons.prems by auto
    have d: "nodeGpuData ?st1 = nodeGpuData st @ [(n, length (dev_bindGroups st))]"
      by (simp add: setupMeshNodeBindGroup_nodeGpuData mapSet_fresh [OF fresh])
    have "\<forall>k \<in> fst ` set (nodeGpuData ?st1). k < Suc n" using Cons.prems d by auto
    from Cons.IH [OF this] Some d show ?thesis by simp
  qed
qed

lemma initNodeBindGroup_nodes:
  "nodeGpuData st = [] \<Longrightarrow>
     map fst (nodeGpuData (initNodeBindGroup grp st)) = meshNodes (gltf grp)"
  using initNodeBindGroup_fold [of st 0 grp "nodes (gltf grp)"]
  by (simp add: initNodeBindGroup_def meshNodes_def)

lemma initNodeBindGroup_primitiveGpuData:
  "primitiveGpuData (initNodeBindGroup grp st) = primitiveGpuData st"
proof -
  have "primitiveGpuData
          (fold (\<lambda>(i, node). if node_mesh node \<noteq> None then setupMeshNodeBindGroup grp i else id)
             xs st) = primitiveGpuData st" for xs
    by (induction xs arbitrary: st) (auto simp: setupMeshNodeBindGroup_primitiveGpuData)
  then show ?thesis by (simp add: initNodeBindGroup_def)
qed

lemma loadGPUBuffers_nodeGpuData:
  assumes "loadGPUBuffers grp st = Inr st'"
  shows "nodeGpuData st' = nodeGpuData st"
proof -
  from assms obtain m where
    c: "forEach (uploadBufferView grp m) [0 ..< length (bufferViews (gltf grp))]
          (st\<lparr>gpuBuffers := []\<rparr>) = Inr st'"
    by (auto simp: loadGPUBuffers_def split: sum.splits)
  show ?thesis
    by (rule forEach_invariant [OF c, where P = "\<lambda>s. nodeGpuData s = nodeGpuData st"])
      (auto dest: uploadBufferView_result)
qed

lemma initConstantBindGroup_nodeGpuData:
  "initConstantBindGroup grp st = Inr st' \<Longrightarrow> nodeGpuData st' = nodeGpuData st"
  by (auto simp: initConstantBindGroup_def createBuffer_def createBindGroup_def writeBuffer_def
      Let_def split: sum.splits if_splits)

lemma initFrameBindGroup_nodeGpuData:
  "initFrameBindGroup grp st = Inr st' \<Longrightarrow> nodeGpuData st' = nodeGpuData st"
  apply (clarsimp simp: initFrameBindGroup_def Let_def createBuffer_def createBindGroup_def
      split: sum.splits)
  apply (drule updateInstanceBuffer_result)
  apply (drule initJointTransformBuffer_result)
  apply (clarsimp simp: writeBuffer_def)
  done

lemma setupPrimitive_stores:
  assumes "setupPrimitive grp key p a = Inr b"
  shows "primitiveGpuData b key \<noteq> None
       \<and> (\<forall>k. primitiveGpuData a k \<noteq> None \<longrightarrow> primitiveGpuData b k \<noteq> None)
       \<and> nodeGpuData b = nodeGpuData a"
  using assms
  by (auto simp: setupPrimitive_def createRenderPipeline_def Let_def
      split: sum.splits option.splits prod.splits)

lemma setupMesh_stores:
  assumes "setupMesh grp (m, mesh) a = Inr b"
  shows "(\<forall>j < length (primitives mesh). primitiveGpuData b (m, j) \<noteq> None)
       \<and> (\<forall>k. primitiveGpuData a k \<noteq> None \<longrightarrow> primitiveGpuData b k \<noteq> None)
       \<and> nodeGpuData b = nodeGpuData a"
proof -
  from assms have loop:
    "forEach (\<lambda>(j, primitive). setupPrimitive grp (m, j) primitive)
       (enumerate 0 (primitives mesh)) a = Inr b"
    by (simp add: setupMesh_def)
  have est: "\<forall>entry \<in> set (enumerate 0 (primitives mesh)).
      primitiveGpuData b (m, fst entry) \<noteq> None"
    by (rule forEach_establishes [OF loop]) (auto dest: setupPrimitive_stores)
  have stored: "\<forall>j < length (primitives mesh). primitiveGpuData b (m, j) \<noteq> None"
  proof (intro allI impI)
    fix j
    assume "j < length (primitives mesh)"
    then have "(j, primitives mesh ! j) \<in> set (enumerate 0 (primitives mesh))"
      by (simp add: in_set_enumerate_eq)
    with est show "primitiveGpuData b (m, j) \<noteq> None" by force
  qed
  have keep: "\<forall>k. primitiveGpuData a k \<noteq> None \<longrightarrow> primitiveGpuData b k \<noteq> None"
    by (rule forEach_invariant [OF loop,
          where P = "\<lambda>s. \<forall>k. primitiveGpuData a k \<noteq> None \<longrightarrow> primitiveGpuData s k \<noteq> None"])
      (auto dest: setupPrimitive_stores)
  have nodes: "nodeGpuData b = nodeGpuData a"
    by (rule forEach_invariant [OF loop, where P = "\<lambda>s. nodeGpuData s = nodeGpuData a"])
      (auto dest: setupPrimitive_stores)
  from stored keep nodes show ?thesis by blast
qed

lemma init_registers:
  assumes "init width height grp first st0 = Inr st"
  shows "map fst (nodeGpuData st) = meshNodes (gltf grp)
       \<and> (\<forall>m < length (meshes (gltf grp)).
            \<forall>j < length (primitives (meshes (gltf grp) ! m)). primitiveGpuData st (m, j) \<noteq> None)"
proof -
  let ?s0 = "st0\<lparr>canvas_width := width, canvas_height := height, isFirstRenderer := first,
           nodeGpuData := [], primitiveGpuData := Map.empty\<rparr>"
  from assms obtain st1 st2 st3 where
    a: "loadGPUBuffers grp ?s0 = Inr st1" and
    b: "initConstantBindGroup grp st1 = Inr st2" and
    c: "initFrameBindGroup grp st2 = Inr st3" and
    loop: "forEach (setupMesh grp) (enumerate 0 (meshes (gltf grp))) (initNodeBindGroup grp st3)
             = Inr st"
    by (auto simp: init_def initializeWebGPUAndGLTF_def split: sum.splits)
  have "nodeGpuData st3 = []"
    using loadGPUBuffers_nodeGpuData [OF a] initConstantBindGroup_nodeGpuData [OF b]
      initFrameBindGroup_nodeGpuData [OF c] by simp
  then have n4: "map fst (nodeGpuData (initNodeBindGroup grp st3)) = meshNodes (gltf grp)"
    by (rule initNodeBindGroup_nodes)
  have "nodeGpuData st = nodeGpuData (initNodeBindGroup grp st3)"
    by (rule forEach_invariant [OF loop,
          where P = "\<lambda>s. nodeGpuData s = nodeGpuData (initNodeBindGroup grp st3)"])
      (auto dest: setupMesh_stores)
  with n4 have nodes: "map fst (nodeGpuData st) = meshNodes (gltf grp)" by simp
  have est: "\<forall>entry \<in> set (enumerate 0 (meshes (gltf grp))).
      \<forall>j < length (primitives (snd entry)). primitiveGpuData st (fst entry, j) \<noteq> None"
    by (rule forEach_establishes [OF loop]) (auto dest: setupMesh_stores)
  have "\<forall>m < length (meshes (gltf grp)).
            \<forall>j < length (primitives (meshes (gltf grp) ! m)). primitiveGpuData st (m, j) \<noteq> None"
  proof (intro allI impI)
    fix m j
    assume m: "m < length (meshes (gltf grp))"
      and j: "j < length (primitives (meshes (gltf grp) ! m))"
    from m have "(m, meshes (gltf grp) ! m) \<in> set (enumerate 0 (meshes (gltf grp)))"
      by (simp add: in_set_enumerate_eq)
    with est j show "primitiveGpuData st (m, j) \<noteq> None" by force
  qed
  with nodes show ?thesis by blast
qed

lemma init_then_renderGLTF_returns:
  assumes "init width height grp first st0 = Inr st"
    and "\<forall>node \<in> set (nodes (gltf grp)).
           \<forall>m. node_mesh node = Some m \<longrightarrow> m < length (meshes (gltf grp))"
  shows "\<exists>fr. renderGLTF grp st = Inr fr"
proof (rule renderGLTF_returns, intro ballI)
  fix entry
  assume e: "entry \<in> set (nodeGpuData st)"
  note r = init_registers [OF assms(1)]
  from e have "fst entry \<in> set (meshNodes (gltf grp))"
    using r by (metis image_eqI set_map)
  then obtain node where
    n: "(fst entry, node) \<in> set (enumerate 0 (nodes (gltf grp)))" and
    m: "node_mesh node \<noteq> None"
    by (auto simp: meshNodes_def)
  from n have i: "fst entry < length (nodes (gltf grp))" "nodes (gltf grp) ! fst entry = node"
    by (auto simp: in_set_enumerate_eq)
  from m obtain k where k: "node_mesh node = Some k" by auto
  with assms(2) i have "k < length (meshes (gltf grp))"
    by (metis nth_mem)
  with r i k show "nodeDrawable grp st (fst entry)"
    by (simp add: nodeDrawable_def meshOfNode_def)
qed

end
